theory Spec2Isabelle
  imports Main "HOL-Library.Sublist" "HOL-Library.Word" "HOL-Library.AList"
begin

unbundle bit_operations_syntax

section \<open>Values of the plugin framework\<close>

text \<open>
  The framework's \<^verbatim>\<open>types.String\<close> is null, unknown or a known string;
  \<^verbatim>\<open>ValueString()\<close> is the empty string for the first two. Maps and lists have the
  same three states. A Go \<^verbatim>\<open>map[string]string\<close> is an association list here: Go ranges
  over a map in an unspecified order, the model ranges in list order.
\<close>

datatype tf_string = StringNull | StringUnknown | StringValue string

fun IsNull :: "tf_string \<Rightarrow> bool" where
  "IsNull StringNull = True"
| "IsNull _ = False"

fun IsUnknown :: "tf_string \<Rightarrow> bool" where
  "IsUnknown StringUnknown = True"
| "IsUnknown _ = False"

fun ValueString :: "tf_string \<Rightarrow> string" where
  "ValueString (StringValue s) = s"
| "ValueString _ = []"

datatype tf_map = MapNull | MapUnknown | MapValue "(string \<times> tf_string) list"

datatype 'a tf_list = ListNull | ListUnknown | ListValue "'a list"

type_synonym go_map = "(string \<times> string) list"

text \<open>\<^verbatim>\<open>m[k] = v\<close> on a Go map.\<close>

definition map_set :: "go_map \<Rightarrow> string \<Rightarrow> string \<Rightarrow> go_map" where
  "map_set m k v = AList.update k v m"

text \<open>\<^verbatim>\<open>m[k]\<close> on a Go map: the zero value when the key is absent.\<close>

definition map_get :: "go_map \<Rightarrow> string \<Rightarrow> string" where
  "map_get m k = (case map_of m k of None \<Rightarrow> [] | Some v \<Rightarrow> v)"

text \<open>\<^verbatim>\<open>ConvertTerraformMap\<close> (request_builder.go): nil for a null or unknown map.\<close>

fun ConvertTerraformMap :: "tf_map \<Rightarrow> go_map" where
  "ConvertTerraformMap (MapValue es) =
     foldl (\<lambda>result (k, v). map_set result k (ValueString v)) [] es"
| "ConvertTerraformMap _ = []"

text \<open>\<^verbatim>\<open>ConvertTerraformList\<close>: nil for a null or unknown list.\<close>

fun ConvertTerraformList :: "'a tf_list \<Rightarrow> 'a list" where
  "ConvertTerraformList (ListValue xs) = xs"
| "ConvertTerraformList _ = []"

section \<open>Strings\<close>

text \<open>
  Go strings are byte strings. \<^verbatim>\<open>strings.ToLower\<close> and \<^verbatim>\<open>strings.EqualFold\<close> are
  modelled on the ASCII range, where header names live; bytes from 128 on are left as
  they are.
\<close>

definition upper_letters :: string where
  "upper_letters = ''ABCDEFGHIJKLMNOPQRSTUVWXYZ''"

definition lower_letters :: string where
  "lower_letters = ''abcdefghijklmnopqrstuvwxyz''"

definition lower_char :: "char \<Rightarrow> char" where
  "lower_char c = (case map_of (zip upper_letters lower_letters) c of Some d \<Rightarrow> d | None \<Rightarrow> c)"

definition upper_char :: "char \<Rightarrow> char" where
  "upper_char c = (case map_of (zip lower_letters upper_letters) c of Some d \<Rightarrow> d | None \<Rightarrow> c)"

definition ToLower :: "string \<Rightarrow> string" where
  "ToLower s = map lower_char s"

definition EqualFold :: "string \<Rightarrow> string \<Rightarrow> bool" where
  "EqualFold s t = (ToLower s = ToLower t)"

text \<open>\<^verbatim>\<open>strings.Contains(s, substr)\<close>.\<close>

fun Contains :: "string \<Rightarrow> string \<Rightarrow> bool" where
  "Contains [] substr = (substr = [])"
| "Contains (c # cs) substr = (prefix substr (c # cs) \<or> Contains cs substr)"

text \<open>
  The width in bytes of the first UTF-8 rune of a non-empty string, as
  \<^verbatim>\<open>utf8.DecodeRuneInString\<close> reports it: an invalid or truncated encoding has width 1.
\<close>

definition is_cont :: "string \<Rightarrow> nat \<Rightarrow> bool" where
  "is_cont s i = (i < length s \<and> 128 \<le> (of_char (s ! i) :: nat) \<and> (of_char (s ! i) :: nat) \<le> 191)"

definition second_in :: "string \<Rightarrow> nat \<Rightarrow> nat \<Rightarrow> bool" where
  "second_in s lo hi = (1 < length s \<and> lo \<le> (of_char (s ! 1) :: nat) \<and> (of_char (s ! 1) :: nat) \<le> hi)"

definition rune_width :: "string \<Rightarrow> nat" where
  "rune_width s = (case s of [] \<Rightarrow> 1 | c # _ \<Rightarrow>
     (let b = (of_char c :: nat) in
      if b < 194 then 1
      else if b \<le> 223 then (if second_in s 128 191 then 2 else 1)
      else if b \<le> 239 then
        (if second_in s (if b = 224 then 160 else 128) (if b = 237 then 159 else 191) \<and> is_cont s 2
         then 3 else 1)
      else if b \<le> 244 then
        (if second_in s (if b = 240 then 144 else 128) (if b = 244 then 143 else 191)
            \<and> is_cont s 2 \<and> is_cont s 3
         then 4 else 1)
      else 1))"

text \<open>
  \<^verbatim>\<open>strings.ReplaceAll(s, old, new)\<close>: the non-overlapping occurrences of \<^verbatim>\<open>old\<close>,
  leftmost first, are replaced; an empty \<^verbatim>\<open>old\<close> matches before every rune and at the
  end of the string.
\<close>

function replace_nonempty :: "string \<Rightarrow> string \<Rightarrow> string \<Rightarrow> string" where
  "replace_nonempty old new s =
     (if old = [] then s
      else if prefix old s then new @ replace_nonempty old new (drop (length old) s)
      else (case s of [] \<Rightarrow> [] | c # cs \<Rightarrow> c # replace_nonempty old new cs))"
  by pat_completeness auto
termination
  by (relation "measure (\<lambda>(old, new, s). length s)") (auto simp: prefix_def)

declare replace_nonempty.simps [simp del]

function replace_empty :: "string \<Rightarrow> string \<Rightarrow> string" where
  "replace_empty new s =
     new @ (if s = [] then []
            else take (rune_width s) s @ replace_empty new (drop (rune_width s) s))"
  by pat_completeness auto
termination
  by (relation "measure (\<lambda>(new, s). length s)")
     (auto simp: rune_width_def Let_def split: list.splits)

declare replace_empty.simps [simp del]

definition ReplaceAll :: "string \<Rightarrow> string \<Rightarrow> string \<Rightarrow> string" where
  "ReplaceAll s old new =
     (if old = new then s
      else if old = [] then replace_empty new s
      else replace_nonempty old new s)"

section \<open>Redaction and truncation (package utils)\<close>

definition REDACTED :: string where
  "REDACTED = ''[REDACTED]''"

definition TRUNCATED :: string where
  "TRUNCATED = ''... [TRUNCATED]''"

text \<open>
  \<^verbatim>\<open>RedactError\<close>: for each entry of the redact list that occurs in the message up to
  ASCII case, every exact occurrence of the entry is replaced by the marker. The list
  holds header names; header values are no input of the function.
\<close>

definition redact_step :: "string \<Rightarrow> string \<Rightarrow> string" where
  "redact_step result pattern =
     (if Contains (ToLower result) (ToLower pattern)
      then ReplaceAll result pattern REDACTED else result)"

definition RedactError :: "string \<Rightarrow> string list \<Rightarrow> string" where
  "RedactError errMsg redactList = foldl redact_step errMsg redactList"

text \<open>
  \<^verbatim>\<open>TruncateString(s, maxLen)\<close>: \<^verbatim>\<open>s[:maxLen]\<close> panics for a negative
  \<^verbatim>\<open>maxLen\<close>; the panic is \<open>None\<close>.
\<close>

definition TruncateString :: "string \<Rightarrow> int \<Rightarrow> string option" where
  "TruncateString s maxLen =
     (if int (length s) \<le> maxLen then Some s
      else if maxLen < 0 then None
      else Some (take (nat maxLen) s @ TRUNCATED))"

section \<open>Errors\<close>

text \<open>
  Go errors are values of one datatype. A constructor stands for one message format of
  the source; a wrapped error (\<^verbatim>\<open>%w\<close>) is an argument.
\<close>

datatype reason =
    StatusNotRequired int "int list"
  | JsonPathNotSatisfied
  | HeaderNotSatisfied
  | InvalidRegex
  | BodyNoMatch string

datatype expect_failure =
    StatusNotExpected int "int list"
  | HeaderNotPresent string

datatype error =
    OutputKeyNotFound string
  | InterpolateMapFailed string error
  | InterpolateHeaderFailed string error
  | ParseOutputsFailed
  | InvalidURL
  | BodyConflict
  | InvalidBodyJson
  | OpenBodyFileFailed
  | ReadBodyFileFailed
  | CreateRequestFailed
  | CreateClientFailed string
  | RequestFailed string
  | ReadBodyFailed string
  | ContextDone
  | ExhaustedConditions int "reason list"
  | ExhaustedStatus int int
  | ExhaustedError int error
  | Exhausted int
  | ExpectationFailed "expect_failure list"
  | Panic

section \<open>Template interpolation (interpolation.go)\<close>

record InterpolationContext =
  ctx_ID :: string
  ctx_Outputs :: go_map
  ctx_ResponseBody :: string
  ctx_StatusCode :: int

text \<open>The character class \<^verbatim>\<open>[a-zA-Z0-9_]\<close> of the outputs pattern.\<close>

definition isKeyChar :: "char \<Rightarrow> bool" where
  "isKeyChar c = (let n = (of_char c :: nat) in
     (97 \<le> n \<and> n \<le> 122) \<or> (65 \<le> n \<and> n \<le> 90) \<or> (48 \<le> n \<and> n \<le> 57) \<or> n = 95)"

definition outputsOpen :: string where
  "outputsOpen = ''${self.outputs.''"

text \<open>The template \<^verbatim>\<open>${self.outputs.KEY}\<close>.\<close>

definition outputsTemplate :: "string \<Rightarrow> string" where
  "outputsTemplate key = outputsOpen @ key @ ''}''"

text \<open>
  A match of \<^verbatim>\<open>\$\{self\.outputs\.([a-zA-Z0-9_]+)\}\<close> at the start of \<open>s\<close>: the key
  (the submatch) and the text after the match. The class is greedy and the closing brace
  is outside it, so the key is the longest run of class characters.
\<close>

definition matchOutputs :: "string \<Rightarrow> (string \<times> string) option" where
  "matchOutputs s =
     (if prefix outputsOpen s then
        (let t = drop (length outputsOpen) s;
             key = takeWhile isKeyChar t;
             r = dropWhile isKeyChar t
         in if key \<noteq> [] \<and> (case r of [] \<Rightarrow> False | c # _ \<Rightarrow> c = CHR ''}'')
            then Some (key, tl r) else None)
      else None)"

text \<open>
  \<^verbatim>\<open>outputsRegex.ReplaceAllStringFunc\<close> with the closure of \<^verbatim>\<open>InterpolateString\<close>:
  matches are taken leftmost first and do not overlap; a key present in the outputs is
  replaced by its value, a missing key leaves the match in place and overwrites
  \<^verbatim>\<open>lastErr\<close>. The result is the new text and the final \<^verbatim>\<open>lastErr\<close> (the key of the
  last missing match).
\<close>

function replaceOutputs :: "go_map \<Rightarrow> string \<Rightarrow> string \<times> string option" where
  "replaceOutputs outs s =
     (case matchOutputs s of
        Some (key, rest) \<Rightarrow>
          (let (r, e) = replaceOutputs outs rest in
           case map_of outs key of
             Some val \<Rightarrow> (val @ r, e)
           | None \<Rightarrow> (outputsTemplate key @ r, (case e of None \<Rightarrow> Some key | Some k \<Rightarrow> Some k)))
      | None \<Rightarrow>
          (case s of [] \<Rightarrow> ([], None)
           | c # cs \<Rightarrow> (let (r, e) = replaceOutputs outs cs in (c # r, e))))"
  by pat_completeness auto
termination
proof (relation "measure (\<lambda>(outs, s). length s)")
  show "wf (measure (\<lambda>(outs :: go_map, s :: string). length s))" by simp
next
  fix outs :: go_map and s :: string and x2 :: "string \<times> string" and x y :: string
  assume m: "matchOutputs s = Some x2" and x: "(x, y) = x2"
  have "length (dropWhile isKeyChar (drop (length outputsOpen) s)) \<le> length s"
    using length_dropWhile_le [of isKeyChar "drop (length outputsOpen) s"] by simp
  then have "length y < length s"
    using m x by (auto simp: matchOutputs_def Let_def split: if_splits list.splits)
  then show "((outs, y), outs, s) \<in> measure (\<lambda>(outs, s). length s)" by simp
next
  fix outs :: go_map and s :: string and x21 :: char and x22 :: string
  assume "s = x21 # x22"
  then show "((outs, x22), outs, s) \<in> measure (\<lambda>(outs, s). length s)" by simp
qed

declare replaceOutputs.simps [simp del]

definition selfId :: string where
  "selfId = ''${self.id}''"

definition InterpolateString :: "string \<Rightarrow> InterpolationContext \<Rightarrow> error + string" where
  "InterpolateString text' interpolCtx =
     (if text' = [] then Inr text'
      else (let (result, lastErr) = replaceOutputs (ctx_Outputs interpolCtx) text' in
            case lastErr of
              Some key \<Rightarrow> Inl (OutputKeyNotFound key)
            | None \<Rightarrow> Inr (ReplaceAll result selfId (ctx_ID interpolCtx))))"

text \<open>\<^verbatim>\<open>InterpolateMap\<close>: the first value that fails ends the loop.\<close>

fun interpolate_entries :: "go_map \<Rightarrow> InterpolationContext \<Rightarrow> go_map \<Rightarrow> error + go_map" where
  "interpolate_entries [] interpolCtx result = Inr result"
| "interpolate_entries ((key, val) # m) interpolCtx result =
     (case InterpolateString val interpolCtx of
        Inl err \<Rightarrow> Inl (InterpolateMapFailed key err)
      | Inr expanded \<Rightarrow> interpolate_entries m interpolCtx (map_set result key expanded))"

definition InterpolateMap :: "go_map \<Rightarrow> InterpolationContext \<Rightarrow> error + go_map" where
  "InterpolateMap m interpolCtx =
     (if length m = 0 then Inr m else interpolate_entries m interpolCtx [])"

record HeaderBlockModel =
  hb_Name :: tf_string
  hb_Value :: tf_string

fun interpolate_blocks ::
  "HeaderBlockModel list \<Rightarrow> InterpolationContext \<Rightarrow> HeaderBlockModel list \<Rightarrow> error + HeaderBlockModel list" where
  "interpolate_blocks [] interpolCtx result = Inr result"
| "interpolate_blocks (block # blocks) interpolCtx result =
     (case InterpolateString (ValueString (hb_Value block)) interpolCtx of
        Inl err \<Rightarrow> Inl (InterpolateHeaderFailed (ValueString (hb_Name block)) err)
      | Inr expandedValue \<Rightarrow>
          interpolate_blocks blocks interpolCtx
            (result @ [\<lparr>hb_Name = hb_Name block, hb_Value = StringValue expandedValue\<rparr>]))"

definition InterpolateHeaderBlocks ::
  "HeaderBlockModel list \<Rightarrow> InterpolationContext \<Rightarrow> error + HeaderBlockModel list" where
  "InterpolateHeaderBlocks blocks interpolCtx =
     (if length blocks = 0 then Inr blocks else interpolate_blocks blocks interpolCtx [])"

section \<open>The outside world\<close>

text \<open>
  What the code obtains from the Go standard library and from the network is a parameter
  of the model, one field each:
  \<^item> \<open>parseURL\<close>: whether \<^verbatim>\<open>url.Parse\<close> accepts the URL; \<open>urlString\<close>: the URL as
    \<^verbatim>\<open>reqURL.String()\<close> gives it once the query parameters are added and encoded;
  \<^item> \<open>newRequestOk\<close>: whether \<^verbatim>\<open>http.NewRequestWithContext\<close> accepts method and URL;
  \<^item> \<open>jsonCompact\<close>: \<^verbatim>\<open>json.Unmarshal\<close> followed by \<^verbatim>\<open>json.Marshal\<close>, \<open>None\<close> for
    invalid JSON;
  \<^item> \<open>readFile\<close>: \<^verbatim>\<open>os.Open\<close> and \<^verbatim>\<open>io.ReadAll\<close> on a path;
  \<^item> \<open>newClientErr\<close>: the error of \<^verbatim>\<open>client.NewHTTPClient\<close> (bad CA certificate, key pair
    or proxy URL), if any;
  \<^item> \<open>roundTrip\<close>: the outcome of the i-th call of \<^verbatim>\<open>httpClient.Do\<close>, counted from 0;
  \<^item> \<open>ctxDone\<close>: whether \<^verbatim>\<open>ctx.Done()\<close> wins the \<^verbatim>\<open>select\<close> of the wait that follows
    attempt n;
  \<^item> \<open>jsonPathConditions\<close>: \<^verbatim>\<open>checkJsonPathConditions\<close> on a body and a condition map
    (it rests on \<^verbatim>\<open>encoding/json\<close> and \<^verbatim>\<open>fmt\<close>);
  \<^item> \<open>regexMatch\<close>: \<^verbatim>\<open>regexp.MatchString\<close> on pattern and body, \<open>None\<close> for an invalid
    pattern;
  \<^item> \<open>httpDate\<close>: for a \<^verbatim>\<open>Retry-After\<close> value that the first matching date layout of
    \<^verbatim>\<open>parseRetryAfter\<close> parses, the duration \<^verbatim>\<open>t.Sub(now)\<close> in nanoseconds and whether
    \<^verbatim>\<open>t.After(now)\<close>; \<open>None\<close> when no layout parses it;
  \<^item> \<open>jitterMs\<close>: \<^verbatim>\<open>int64(float64(delayMs) * 0.25 * rand.Float64())\<close>;
  \<^item> \<open>powOutOfRange\<close>: the implementation-dependent \<^verbatim>\<open>int64\<close> that converting a
    \<^verbatim>\<open>float64\<close> of at least \<open>2^63\<close> gives.
\<close>

text \<open>\<^verbatim>\<open>http.Header\<close>: canonical key to values; \<^verbatim>\<open>http.Request\<close>.\<close>

type_synonym http_header = "(string \<times> string list) list"

record http_request =
  req_Method :: string
  req_URL :: string
  req_Body :: "string option"
  req_Header :: http_header

datatype file_result = OpenFails | ReadFails | Contents string

datatype http_outcome =
    TransportError string
  | Response (resp_status: int) (resp_header: "(string \<times> string list) list")
      (resp_body: string) (resp_read_error: "string option")

record world =
  parseURL :: "string \<Rightarrow> bool"
  urlString :: "string \<Rightarrow> go_map \<Rightarrow> string"
  newRequestOk :: "string \<Rightarrow> string \<Rightarrow> bool"
  jsonCompact :: "string \<Rightarrow> string option"
  readFile :: "string \<Rightarrow> file_result"
  newClientErr :: "string option"
  roundTrip :: "nat \<Rightarrow> http_request \<Rightarrow> http_outcome"
  ctxDone :: "int \<Rightarrow> bool"
  jsonPathConditions :: "string \<Rightarrow> go_map \<Rightarrow> bool"
  regexMatch :: "string \<Rightarrow> string \<Rightarrow> bool option"
  httpDate :: "string \<Rightarrow> (64 word \<times> bool) option"
  jitterMs :: "64 word \<Rightarrow> 64 word"
  powOutOfRange :: "64 word"

section \<open>Request builder (request_builder.go)\<close>

record BasicAuthModel =
  ba_Username :: string
  ba_Password :: string

record ResourceBasicAuthModel =
  rba_Username :: tf_string
  rba_Password :: tf_string

text \<open>
  \<^verbatim>\<open>ProviderConfig\<close>, without the fields that only feed the TLS and proxy setup of
  \<^verbatim>\<open>NewHTTPClient\<close>.
\<close>

record ProviderConfig =
  pc_DefaultHeaders :: go_map
  pc_BasicAuth :: "BasicAuthModel option"
  pc_BearerToken :: "string option"
  pc_RedactHeaders :: "string list"
  pc_MaxResponseBodyBytes :: int

record RequestConfig =
  rq_Url :: string
  rq_Method :: string
  rq_Headers :: go_map
  rq_HeaderBlocks :: "HeaderBlockModel list"
  rq_Query :: go_map
  rq_Body :: tf_string
  rq_BodyJson :: tf_string
  rq_BodyFile :: tf_string
  rq_BasicAuth :: "ResourceBasicAuthModel option"
  rq_BearerToken :: tf_string
  rq_ProviderDefaults :: "ProviderConfig option"

text \<open>
  \<^verbatim>\<open>textproto.CanonicalMIMEHeaderKey\<close>: a key of token bytes gets an upper-case letter
  first and after each hyphen and lower-case letters elsewhere; any other key is left
  as it is.
\<close>

definition validHeaderFieldByte :: "char \<Rightarrow> bool" where
  "validHeaderFieldByte c = (let n = (of_char c :: nat) in
     (97 \<le> n \<and> n \<le> 122) \<or> (65 \<le> n \<and> n \<le> 90) \<or> (48 \<le> n \<and> n \<le> 57)
     \<or> c \<in> set ''!#$%&*+-.^_`|~'' \<or> n = 39)"

fun canonical_from :: "bool \<Rightarrow> string \<Rightarrow> string" where
  "canonical_from upper [] = []"
| "canonical_from upper (c # cs) =
     (let c' = (if upper then upper_char c else lower_char c)
      in c' # canonical_from (c' = CHR ''-'') cs)"

definition CanonicalMIMEHeaderKey :: "string \<Rightarrow> string" where
  "CanonicalMIMEHeaderKey s = (if list_all validHeaderFieldByte s then canonical_from True s else s)"

definition header_Add :: "http_header \<Rightarrow> string \<Rightarrow> string \<Rightarrow> http_header" where
  "header_Add h key v =
     (let k = CanonicalMIMEHeaderKey key in
      case map_of h k of
        None \<Rightarrow> h @ [(k, [v])]
      | Some vs \<Rightarrow> AList.update k (vs @ [v]) h)"

definition header_Set :: "http_header \<Rightarrow> string \<Rightarrow> string \<Rightarrow> http_header" where
  "header_Set h key v = AList.update (CanonicalMIMEHeaderKey key) [v] h"

text \<open>\<^verbatim>\<open>base64.StdEncoding.EncodeToString\<close>.\<close>

definition b64_char :: "nat \<Rightarrow> char" where
  "b64_char n = ''ABCDEFGHIJKLMNOPQRSTUVWXYZabcdefghijklmnopqrstuvwxyz0123456789+/'' ! (n mod 64)"

fun b64_encode :: "nat list \<Rightarrow> string" where
  "b64_encode (a # b # c # rest) =
     [b64_char (a div 4), b64_char ((a mod 4) * 16 + b div 16),
      b64_char ((b mod 16) * 4 + c div 64), b64_char (c mod 64)] @ b64_encode rest"
| "b64_encode [a, b] =
     [b64_char (a div 4), b64_char ((a mod 4) * 16 + b div 16), b64_char ((b mod 16) * 4), CHR ''='']"
| "b64_encode [a] = [b64_char (a div 4), b64_char ((a mod 4) * 16), CHR ''='', CHR ''='']"
| "b64_encode [] = []"

definition EncodeToString :: "string \<Rightarrow> string" where
  "EncodeToString s = b64_encode (map of_char s)"

definition basicCredential :: "string \<Rightarrow> string \<Rightarrow> string" where
  "basicCredential username password = ''Basic '' @ EncodeToString (username @ '':'' @ password)"

text \<open>The test the source repeats for each body field: known and not empty.\<close>

definition is_set :: "tf_string \<Rightarrow> bool" where
  "is_set v = (\<not> IsNull v \<and> \<not> IsUnknown v \<and> ValueString v \<noteq> [])"

text \<open>
  The body of the request and the flag \<^verbatim>\<open>contentTypeSet\<close>. The flag looks up the key
  \<^verbatim>\<open>"Content-Type"\<close>, as spelled, in the request's header map only.
\<close>

definition select_body :: "world \<Rightarrow> RequestConfig \<Rightarrow> error + (string option \<times> bool)" where
  "select_body w config =
     (if is_set (rq_Body config) then Inr (Some (ValueString (rq_Body config)), False)
      else if is_set (rq_BodyJson config) then
        (case jsonCompact w (ValueString (rq_BodyJson config)) of
           None \<Rightarrow> Inl InvalidBodyJson
         | Some jsonBytes \<Rightarrow>
             Inr (Some jsonBytes, map_get (rq_Headers config) ''Content-Type'' = []))
      else if is_set (rq_BodyFile config) then
        (case readFile w (ValueString (rq_BodyFile config)) of
           OpenFails \<Rightarrow> Inl OpenBodyFileFailed
         | ReadFails \<Rightarrow> Inl ReadBodyFileFailed
         | Contents bodyBytes \<Rightarrow> Inr (Some bodyBytes, False))
      else Inr (None, False))"

text \<open>
  The merged \<^verbatim>\<open>headers\<close> map (lower-case key to values): provider defaults, then the
  request's map, then the header blocks, which append.
\<close>

type_synonym header_map = "(string \<times> string list) list"

definition add_block :: "header_map \<Rightarrow> HeaderBlockModel \<Rightarrow> header_map" where
  "add_block headers hb =
     (if \<not> IsNull (hb_Name hb) \<and> \<not> IsNull (hb_Value hb) then
        (let key = ToLower (ValueString (hb_Name hb)) in
         case map_of headers key of
           Some existing \<Rightarrow> AList.update key (existing @ [ValueString (hb_Value hb)]) headers
         | None \<Rightarrow> AList.update key [ValueString (hb_Value hb)] headers)
      else headers)"

definition merge_headers :: "RequestConfig \<Rightarrow> bool \<Rightarrow> header_map" where
  "merge_headers config contentTypeSet =
     (let headers0 = (case rq_ProviderDefaults config of
                        None \<Rightarrow> []
                      | Some d \<Rightarrow> foldl (\<lambda>h (k, v). AList.update (ToLower k) [v] h) [] (pc_DefaultHeaders d));
          headers1 = foldl (\<lambda>h (k, v). AList.update (ToLower k) [v] h) headers0 (rq_Headers config);
          headers2 = foldl add_block headers1 (rq_HeaderBlocks config)
      in if contentTypeSet then AList.update ''content-type'' [''application/json''] headers2
         else headers2)"

definition apply_headers :: "header_map \<Rightarrow> http_header" where
  "apply_headers headers =
     foldl (\<lambda>h (k, values). foldl (\<lambda>h' v. header_Add h' k v) h values) [] headers"

text \<open>
  The two authentication statements of \<^verbatim>\<open>BuildRequest\<close>, in the order of the source:
  Basic (request level, else provider), then Bearer (request level, else provider). Each
  writes with \<^verbatim>\<open>Header.Set\<close>.
\<close>

definition set_basic_auth :: "RequestConfig \<Rightarrow> http_header \<Rightarrow> http_header" where
  "set_basic_auth config h =
     (case rq_BasicAuth config of
        Some ba \<Rightarrow>
          (let username = (if \<not> IsNull (rba_Username ba) \<and> \<not> IsUnknown (rba_Username ba)
                           then ValueString (rba_Username ba) else []);
               password = (if \<not> IsNull (rba_Password ba) \<and> \<not> IsUnknown (rba_Password ba)
                           then ValueString (rba_Password ba) else [])
           in if username \<noteq> [] \<and> password \<noteq> []
              then header_Set h ''Authorization'' (basicCredential username password) else h)
      | None \<Rightarrow>
          (case rq_ProviderDefaults config of
             None \<Rightarrow> h
           | Some d \<Rightarrow>
               (case pc_BasicAuth d of
                  None \<Rightarrow> h
                | Some pba \<Rightarrow>
                    if ba_Username pba \<noteq> [] \<and> ba_Password pba \<noteq> []
                    then header_Set h ''Authorization''
                           (basicCredential (ba_Username pba) (ba_Password pba))
                    else h)))"

definition set_bearer_auth :: "RequestConfig \<Rightarrow> http_header \<Rightarrow> http_header" where
  "set_bearer_auth config h =
     (if is_set (rq_BearerToken config)
      then header_Set h ''Authorization'' (''Bearer '' @ ValueString (rq_BearerToken config))
      else (case rq_ProviderDefaults config of
              None \<Rightarrow> h
            | Some d \<Rightarrow>
                (case pc_BearerToken d of
                   None \<Rightarrow> h
                 | Some token \<Rightarrow> header_Set h ''Authorization'' (''Bearer '' @ token))))"

definition BuildRequest :: "world \<Rightarrow> RequestConfig \<Rightarrow> error + http_request" where
  "BuildRequest w config =
     (if \<not> parseURL w (rq_Url config) then Inl InvalidURL
      else
        (let reqURL = urlString w (rq_Url config) (rq_Query config);
             bodyCount = (if is_set (rq_Body config) then 1 else 0)
                       + (if is_set (rq_BodyJson config) then 1 else 0)
                       + (if is_set (rq_BodyFile config) then (1::nat) else 0)
         in if bodyCount > 1 then Inl BodyConflict
            else
              (case select_body w config of
                 Inl err \<Rightarrow> Inl err
               | Inr (bodyReader, contentTypeSet) \<Rightarrow>
                   if \<not> newRequestOk w (rq_Method config) reqURL then Inl CreateRequestFailed
                   else Inr \<lparr>req_Method = rq_Method config,
                             req_URL = reqURL,
                             req_Body = bodyReader,
                             req_Header =
                               set_bearer_auth config
                                 (set_basic_auth config
                                    (apply_headers (merge_headers config contentTypeSet)))\<rparr>)))"

section \<open>Executing one request\<close>

record ResponseResult =
  StatusCode :: int
  Headers :: go_map
  Body :: string
  AttemptCount :: int
  Error :: string

text \<open>\<^verbatim>\<open>strings.Join\<close>.\<close>

fun Join :: "string list \<Rightarrow> string \<Rightarrow> string" where
  "Join [] sep = []"
| "Join [x] sep = x"
| "Join (x # y # ys) sep = x @ sep @ Join (y # ys) sep"

text \<open>
  \<^verbatim>\<open>io.ReadAll(client.LimitReader(body, maxBytes))\<close>: at most \<^verbatim>\<open>maxBytes\<close> bytes, none
  when the limit is not positive.
\<close>

definition LimitReader :: "string \<Rightarrow> int \<Rightarrow> string" where
  "LimitReader r maxBytes = take (nat maxBytes) r"

text \<open>
  \<^verbatim>\<open>ExecuteRequest\<close>, as the i-th request sent. Go returns a result pointer and an
  error; the model returns both as options. A panic is the error \<open>Panic\<close> with no result.
\<close>

definition ExecuteRequest ::
  "world \<Rightarrow> http_request \<Rightarrow> ProviderConfig \<Rightarrow> nat \<Rightarrow> ResponseResult option \<times> error option" where
  "ExecuteRequest w req cfg i =
     (case newClientErr w of
        Some e \<Rightarrow> (None, Some (CreateClientFailed e))
      | None \<Rightarrow>
          (case roundTrip w i req of
             TransportError e \<Rightarrow>
               (Some \<lparr>StatusCode = 0, Headers = [], Body = [], AttemptCount = 1,
                      Error = RedactError e (pc_RedactHeaders cfg)\<rparr>,
                Some (RequestFailed e))
           | Response status header body readErr \<Rightarrow>
               (case readErr of
                  Some e \<Rightarrow>
                    (Some \<lparr>StatusCode = status, Headers = [], Body = [], AttemptCount = 1,
                           Error = RedactError e (pc_RedactHeaders cfg)\<rparr>,
                     Some (ReadBodyFailed e))
                | None \<Rightarrow>
                    (let bodyBytes = LimitReader body (pc_MaxResponseBodyBytes cfg) in
                     case (if int (length bodyBytes) \<ge> pc_MaxResponseBodyBytes cfg
                           then TruncateString bodyBytes (pc_MaxResponseBodyBytes cfg)
                           else Some bodyBytes) of
                       None \<Rightarrow> (None, Some Panic)
                     | Some bodyStr \<Rightarrow>
                         (Some \<lparr>StatusCode = status,
                                Headers = foldl (\<lambda>headers (k, v). map_set headers k (Join v '', '')) [] header,
                                Body = bodyStr, AttemptCount = 1, Error = []\<rparr>,
                          None)))))"

section \<open>Expectations\<close>

record ExpectModel =
  ex_StatusCodes :: "int tf_list"
  ex_JsonPathExists :: "tf_string tf_list"
  ex_JsonPathEquals :: tf_map
  ex_HeaderPresent :: "tf_string tf_list"

definition tf_list_set :: "'a tf_list \<Rightarrow> bool" where
  "tf_list_set l = (case l of ListValue _ \<Rightarrow> True | _ \<Rightarrow> False)"

text \<open>
  \<^verbatim>\<open>ValidateExpectations\<close>: the status check, then one header check per required name.
  The function reads neither \<^verbatim>\<open>JsonPathExists\<close> nor \<^verbatim>\<open>JsonPathEquals\<close>; where they
  would be checked the source has the comment
  \<^verbatim>\<open>TODO: Implement json_path_exists and json_path_equals in Phase 4/5\<close>.
\<close>

definition ValidateExpectations :: "ResponseResult \<Rightarrow> ExpectModel option \<Rightarrow> error option" where
  "ValidateExpectations result expect =
     (case expect of
        None \<Rightarrow> None
      | Some ex \<Rightarrow>
          (let errors1 =
                 (if tf_list_set (ex_StatusCodes ex) then
                    (let expectedCodes = ConvertTerraformList (ex_StatusCodes ex) in
                     if StatusCode result \<in> set expectedCodes then []
                     else [StatusNotExpected (StatusCode result) expectedCodes])
                  else []);
               errors2 =
                 (if tf_list_set (ex_HeaderPresent ex) then
                    concat (map (\<lambda>headerName.
                               if list_ex (\<lambda>(k, v). EqualFold k headerName) (Headers result) then []
                               else [HeaderNotPresent headerName])
                             (map ValueString (ConvertTerraformList (ex_HeaderPresent ex))))
                  else []);
               errors = errors1 @ errors2
           in if length errors > 0 then Some (ExpectationFailed errors) else None))"

section \<open>Retry and polling (retry.go)\<close>

record RetryConfig =
  Attempts :: int
  MinDelayMs :: "64 word"
  MaxDelayMs :: "64 word"
  Backoff :: string
  Jitter :: bool
  RetryOnStatusCodes :: "int list"
  RespectRetryAfter :: bool

definition ShouldRetry :: "RetryConfig \<Rightarrow> error option \<Rightarrow> int \<Rightarrow> bool" where
  "ShouldRetry rc err statusCode =
     (if err \<noteq> None then True else statusCode \<in> set (RetryOnStatusCodes rc))"

text \<open>\<^verbatim>\<open>strings.TrimSpace\<close>, on the ASCII white space.\<close>

definition isSpace :: "char \<Rightarrow> bool" where
  "isSpace c = (let n = (of_char c :: nat) in n = 32 \<or> (9 \<le> n \<and> n \<le> 13))"

definition TrimSpace :: "string \<Rightarrow> string" where
  "TrimSpace s = rev (dropWhile isSpace (rev (dropWhile isSpace s)))"

text \<open>
  \<^verbatim>\<open>strconv.ParseInt(s, 10, 64)\<close>: an optional sign and decimal digits; \<open>None\<close> for a
  syntax error or a value outside \<^verbatim>\<open>int64\<close>.
\<close>

definition isDigit :: "char \<Rightarrow> bool" where
  "isDigit c = (let n = (of_char c :: nat) in 48 \<le> n \<and> n \<le> 57)"

definition ParseInt :: "string \<Rightarrow> 64 word option" where
  "ParseInt s =
     (let (neg, ds) = (case s of
                         [] \<Rightarrow> (False, [])
                       | c # cs \<Rightarrow> if c = CHR ''+'' then (False, cs)
                                  else if c = CHR ''-'' then (True, cs) else (False, s))
      in if ds = [] \<or> \<not> list_all isDigit ds then None
         else (let un = foldl (\<lambda>a c. 10 * a + ((of_char c :: nat) - 48)) (0::nat) ds in
               if \<not> neg \<and> un \<ge> 2 ^ 63 then None
               else if neg \<and> un > 2 ^ 63 then None
               else Some (if neg then - of_nat un else of_nat un)))"

datatype retry_after_error = DateInPast | Unparseable

text \<open>
  \<^verbatim>\<open>parseRetryAfter\<close>: a \<^verbatim>\<open>time.Duration\<close> in nanoseconds. Integer seconds are taken
  with their sign; a date that parses is accepted only when it lies after now.
\<close>

definition parseRetryAfter :: "world \<Rightarrow> string \<Rightarrow> retry_after_error + 64 word" where
  "parseRetryAfter w retryAfter =
     (let s = TrimSpace retryAfter in
      case ParseInt s of
        Some seconds \<Rightarrow> Inr (seconds * 1000000000)
      | None \<Rightarrow>
          (case httpDate w s of
             Some (d, after) \<Rightarrow> if after then Inr d else Inl DateInPast
           | None \<Rightarrow> Inl Unparseable))"

text \<open>
  \<^verbatim>\<open>int64(math.Pow(2, float64(e)))\<close>: a negative exponent gives a value below 1, which
  truncates to 0; exponents up to 62 are exact; from 63 on the float is outside
  \<^verbatim>\<open>int64\<close>.
\<close>

definition pow2 :: "world \<Rightarrow> int \<Rightarrow> 64 word" where
  "pow2 w e = (if e < 0 then 0 else if e \<le> 62 then 2 ^ nat e else powOutOfRange w)"

text \<open>
  \<^verbatim>\<open>CalculateDelay\<close>: a \<^verbatim>\<open>time.Duration\<close> in nanoseconds. All arithmetic is
  \<^verbatim>\<open>int64\<close> and wraps; the comparison with the cap is signed.
\<close>

definition CalculateDelay :: "world \<Rightarrow> RetryConfig \<Rightarrow> 64 word \<Rightarrow> string \<Rightarrow> 64 word" where
  "CalculateDelay w rc attempt retryAfter =
     (case (if RespectRetryAfter rc \<and> retryAfter \<noteq> []
            then (case parseRetryAfter w retryAfter of Inr delay \<Rightarrow> Some delay | Inl _ \<Rightarrow> None)
            else None) of
        Some delay \<Rightarrow> delay
      | None \<Rightarrow>
          (let delayMs0 =
                 (if Backoff rc = ''exponential'' then MinDelayMs rc * pow2 w (sint (attempt - 1))
                  else if Backoff rc = ''linear'' then MinDelayMs rc * attempt
                  else MinDelayMs rc);
               delayMs = (if sint delayMs0 > sint (MaxDelayMs rc) then MaxDelayMs rc else delayMs0);
               delay = delayMs * 1000000
           in if Jitter rc then delay + jitterMs w delayMs * 1000000 else delay))"

record RetryUntilConfig =
  ru_StatusCodes :: "int list"
  ru_JsonPathEquals :: go_map
  ru_HeaderEquals :: go_map
  ru_BodyRegex :: string

definition checkHeaderConditions :: "go_map \<Rightarrow> go_map \<Rightarrow> bool" where
  "checkHeaderConditions headers conditions =
     list_all (\<lambda>(headerName, expectedValue).
        list_ex (\<lambda>(k, v). EqualFold k headerName \<and> v = expectedValue) headers) conditions"

definition EvaluateRetryUntil ::
  "world \<Rightarrow> RetryUntilConfig option \<Rightarrow> ResponseResult \<Rightarrow> bool \<times> reason list" where
  "EvaluateRetryUntil w ruc' result =
     (case ruc' of
        None \<Rightarrow> (True, [])
      | Some ruc \<Rightarrow>
          (let u1 = (if length (ru_StatusCodes ruc) > 0 \<and> StatusCode result \<notin> set (ru_StatusCodes ruc)
                     then [StatusNotRequired (StatusCode result) (ru_StatusCodes ruc)] else []);
               u2 = (if length (ru_JsonPathEquals ruc) > 0
                        \<and> \<not> jsonPathConditions w (Body result) (ru_JsonPathEquals ruc)
                     then [JsonPathNotSatisfied] else []);
               u3 = (if length (ru_HeaderEquals ruc) > 0
                        \<and> \<not> checkHeaderConditions (Headers result) (ru_HeaderEquals ruc)
                     then [HeaderNotSatisfied] else []);
               u4 = (if ru_BodyRegex ruc \<noteq> [] then
                       (case regexMatch w (ru_BodyRegex ruc) (Body result) of
                          None \<Rightarrow> [InvalidRegex]
                        | Some matched \<Rightarrow> if \<not> matched then [BodyNoMatch (ru_BodyRegex ruc)] else [])
                     else []);
               unsatisfied = u1 @ u2 @ u3 @ u4
           in (length unsatisfied = 0, unsatisfied)))"

text \<open>
  The retry loop of \<^verbatim>\<open>ExecuteRequestWithRetry\<close>. The state holds the variables
  \<^verbatim>\<open>lastErr\<close>, \<^verbatim>\<open>lastResult\<close> and \<^verbatim>\<open>retryAfter\<close>, the number of calls of
  \<^verbatim>\<open>ExecuteRequest\<close> made so far (each sends the request at most once) and the delays
  waited. The outcome is the returned pair with the last two.
\<close>

record loop_state =
  lastErr :: "error option"
  lastResult :: "ResponseResult option"
  retryAfter :: string
  calls :: nat
  sleeps :: "64 word list"

record retry_outcome =
  out_result :: "ResponseResult option"
  out_err :: "error option"
  out_calls :: nat
  out_sleeps :: "64 word list"

definition returns :: "loop_state \<Rightarrow> ResponseResult option \<Rightarrow> error option \<Rightarrow> retry_outcome" where
  "returns st result err =
     \<lparr>out_result = result, out_err = err, out_calls = calls st, out_sleeps = sleeps st\<rparr>"

text \<open>\<^verbatim>\<open>err.Error()\<close> for the errors of \<^verbatim>\<open>ExecuteRequest\<close>.\<close>

fun error_text :: "error \<Rightarrow> string" where
  "error_text (CreateClientFailed e) = ''failed to create HTTP client: '' @ e"
| "error_text (RequestFailed e) = ''request failed: '' @ e"
| "error_text (ReadBodyFailed e) = ''failed to read response body: '' @ e"
| "error_text _ = []"

text \<open>The statements after the loop (\<^verbatim>\<open>// Exhausted all attempts\<close>).\<close>

definition exhausted ::
  "world \<Rightarrow> RetryUntilConfig option \<Rightarrow> int \<Rightarrow> loop_state \<Rightarrow> retry_outcome" where
  "exhausted w retryUntilConfig attempts st =
     (case lastResult st of
        Some lr \<Rightarrow>
          (let lr' = lr\<lparr>AttemptCount := attempts\<rparr> in
           if retryUntilConfig \<noteq> None
           then returns st (Some lr')
                  (Some (ExhaustedConditions attempts (snd (EvaluateRetryUntil w retryUntilConfig lr'))))
           else returns st (Some lr') (Some (ExhaustedStatus attempts (StatusCode lr'))))
      | None \<Rightarrow>
          (case lastErr st of
             Some e \<Rightarrow>
               returns st
                 (Some \<lparr>StatusCode = 0, Headers = [], Body = [], AttemptCount = attempts,
                        Error = error_text e\<rparr>)
                 (Some (ExhaustedError attempts e))
           | None \<Rightarrow> returns st None (Some (Exhausted attempts))))"

text \<open>The \<^verbatim>\<open>Retry-After\<close> header is read under its exact key.\<close>

definition nextRetryAfter :: "RetryConfig \<Rightarrow> ResponseResult \<Rightarrow> string \<Rightarrow> string" where
  "nextRetryAfter rc result retryAfter' =
     (if RespectRetryAfter rc then
        (case map_of (Headers result) ''Retry-After'' of
           Some retryAfterHeader \<Rightarrow> retryAfterHeader
         | None \<Rightarrow> retryAfter')
      else retryAfter')"

function retry_loop ::
  "world \<Rightarrow> http_request \<Rightarrow> ProviderConfig \<Rightarrow> RetryConfig \<Rightarrow> RetryUntilConfig option
   \<Rightarrow> int \<Rightarrow> int \<Rightarrow> loop_state \<Rightarrow> retry_outcome" where
  "retry_loop w req config rc retryUntilConfig attempts attempt st =
     (if attempt \<le> attempts then
        (let executed = st\<lparr>calls := calls st + 1\<rparr> in
         case ExecuteRequest w req config (calls st) of
           (result, Some err) \<Rightarrow>
             (if err = Panic then returns executed None (Some Panic)
              else
                (let st1 = executed\<lparr>lastErr := Some err, lastResult := result\<rparr> in
                 if \<not> ShouldRetry rc (Some err) 0 \<or> attempt \<ge> attempts
                 then returns st1 result (Some err)
                 else
                   (let delay = CalculateDelay w rc (word_of_int attempt) [];
                        st2 = st1\<lparr>sleeps := sleeps st1 @ [delay]\<rparr>
                    in if ctxDone w attempt then returns st2 result (Some ContextDone)
                       else retry_loop w req config rc retryUntilConfig attempts (attempt + 1) st2)))
         | (None, None) \<Rightarrow> returns executed None (Some Panic)
         | (Some result, None) \<Rightarrow>
             (let (satisfied, unsatisfied) = EvaluateRetryUntil w retryUntilConfig result in
              if retryUntilConfig \<noteq> None \<and> \<not> satisfied \<and> attempt < attempts then
                (let retryAfter1 = nextRetryAfter rc result (retryAfter executed);
                     delay = CalculateDelay w rc (word_of_int attempt) retryAfter1;
                     st2 = executed\<lparr>retryAfter := retryAfter1, sleeps := sleeps executed @ [delay]\<rparr>
                 in if ctxDone w attempt then returns st2 (Some result) (Some ContextDone)
                    else retry_loop w req config rc retryUntilConfig attempts (attempt + 1)
                           (st2\<lparr>lastResult := Some result\<rparr>))
              else if retryUntilConfig \<noteq> None \<and> satisfied then
                returns executed (Some (result\<lparr>AttemptCount := attempt\<rparr>)) None
              else if retryUntilConfig = None \<and> ShouldRetry rc None (StatusCode result)
                      \<and> attempt < attempts then
                (let retryAfter1 = nextRetryAfter rc result (retryAfter executed);
                     delay = CalculateDelay w rc (word_of_int attempt) retryAfter1;
                     st2 = executed\<lparr>retryAfter := retryAfter1, sleeps := sleeps executed @ [delay]\<rparr>
                 in if ctxDone w attempt then returns st2 (Some result) (Some ContextDone)
                    else retry_loop w req config rc retryUntilConfig attempts (attempt + 1)
                           (st2\<lparr>lastResult := Some result\<rparr>))
              else returns executed (Some (result\<lparr>AttemptCount := attempt\<rparr>)) None))
      else exhausted w retryUntilConfig attempts st)"
  by pat_completeness auto
termination
  by (relation "measure (\<lambda>(w, req, config, rc, ruc, attempts, attempt, st). nat (attempts + 1 - attempt))")
     auto

declare retry_loop.simps [simp del]

text \<open>The retry configuration used when only \<^verbatim>\<open>retry_until\<close> is configured.\<close>

definition defaultPollingConfig :: RetryConfig where
  "defaultPollingConfig =
     \<lparr>Attempts = 60, MinDelayMs = 1000, MaxDelayMs = 5000, Backoff = ''exponential'',
      Jitter = True, RetryOnStatusCodes = [], RespectRetryAfter = True\<rparr>"

definition initial_state :: loop_state where
  "initial_state = \<lparr>lastErr = None, lastResult = None, retryAfter = [], calls = 0, sleeps = []\<rparr>"

definition ExecuteRequestWithRetry ::
  "world \<Rightarrow> http_request \<Rightarrow> ProviderConfig \<Rightarrow> RetryConfig option \<Rightarrow> RetryUntilConfig option
   \<Rightarrow> retry_outcome" where
  "ExecuteRequestWithRetry w req config retryConfig retryUntilConfig =
     (if retryConfig = None \<and> retryUntilConfig = None then
        (let (result, err) = ExecuteRequest w req config 0 in
         \<lparr>out_result = result, out_err = err, out_calls = 1, out_sleeps = []\<rparr>)
      else
        (let rc = (case retryConfig of Some rc \<Rightarrow> rc | None \<Rightarrow> defaultPollingConfig);
             attempts = (if Attempts rc \<le> 0 then 1 else Attempts rc)
         in retry_loop w req config rc retryUntilConfig attempts 1 initial_state))"

section \<open>The resource (resource_request.go)\<close>

record RetryModel =
  rm_Attempts :: "int option"
  rm_MinDelayMs :: "64 word option"
  rm_MaxDelayMs :: "64 word option"
  rm_Backoff :: tf_string
  rm_Jitter :: "bool option"
  rm_RetryOnStatusCodes :: "int tf_list"
  rm_RespectRetryAfter :: "bool option"

text \<open>
  \<^verbatim>\<open>BuildRetryConfig\<close>. A number or flag of the model is \<open>None\<close> when it is null or
  unknown, which the source treats alike.
\<close>

definition BuildRetryConfig :: "RetryModel option \<Rightarrow> RetryConfig option" where
  "BuildRetryConfig retryModel =
     (case retryModel of
        None \<Rightarrow> None
      | Some m \<Rightarrow>
          Some \<lparr>Attempts = (case rm_Attempts m of Some a \<Rightarrow> a | None \<Rightarrow> 20),
                MinDelayMs = (case rm_MinDelayMs m of Some d \<Rightarrow> d | None \<Rightarrow> 250),
                MaxDelayMs = (case rm_MaxDelayMs m of Some d \<Rightarrow> d | None \<Rightarrow> 5000),
                Backoff = (if is_set (rm_Backoff m) then ValueString (rm_Backoff m) else ''exponential''),
                Jitter = (case rm_Jitter m of Some j \<Rightarrow> j | None \<Rightarrow> True),
                RetryOnStatusCodes =
                  (if length (ConvertTerraformList (rm_RetryOnStatusCodes m)) > 0
                   then ConvertTerraformList (rm_RetryOnStatusCodes m)
                   else [408, 429, 500, 502, 503, 504]),
                RespectRetryAfter = (case rm_RespectRetryAfter m of Some r \<Rightarrow> r | None \<Rightarrow> True)\<rparr>)"

record RetryUntilModel =
  um_StatusCodes :: "int tf_list"
  um_JsonPathEquals :: tf_map
  um_HeaderEquals :: tf_map
  um_BodyRegex :: tf_string

definition BuildRetryUntilConfig :: "RetryUntilModel option \<Rightarrow> RetryUntilConfig option" where
  "BuildRetryUntilConfig retryUntilModel =
     (case retryUntilModel of
        None \<Rightarrow> None
      | Some m \<Rightarrow>
          Some \<lparr>ru_StatusCodes = ConvertTerraformList (um_StatusCodes m),
                ru_JsonPathEquals = ConvertTerraformMap (um_JsonPathEquals m),
                ru_HeaderEquals = ConvertTerraformMap (um_HeaderEquals m),
                ru_BodyRegex = (if \<not> IsNull (um_BodyRegex m) \<and> \<not> IsUnknown (um_BodyRegex m)
                                then ValueString (um_BodyRegex m) else [])\<rparr>)"

text \<open>
  \<^verbatim>\<open>RequestConfigModel\<close> (the \<^verbatim>\<open>on_destroy\<close> block) and
  \<^verbatim>\<open>HttpxRequestResourceModel\<close> (the stored state), with the fields that \<^verbatim>\<open>Delete\<close>
  and \<^verbatim>\<open>generateResourceID\<close> read.
\<close>

record RequestConfigModel =
  dm_Url :: tf_string
  dm_Method :: tf_string
  dm_Headers :: tf_map
  dm_Query :: tf_map
  dm_Body :: tf_string
  dm_BodyJson :: tf_string
  dm_BodyFile :: tf_string
  dm_BearerToken :: tf_string
  dm_HeaderBlocks :: "HeaderBlockModel list"
  dm_BasicAuth :: "ResourceBasicAuthModel option"
  dm_Retry :: "RetryModel option"
  dm_RetryUntil :: "RetryUntilModel option"
  dm_Expect :: "ExpectModel option"

record HttpxRequestResourceModel =
  m_Id :: tf_string
  m_StatusCode :: int
  m_ResponseBody :: tf_string
  m_Outputs :: tf_map
  m_Url :: tf_string
  m_Method :: tf_string
  m_Headers :: tf_map
  m_Query :: tf_map
  m_Body :: tf_string
  m_BodyJson :: tf_string
  m_BodyFile :: tf_string
  m_OnDestroy :: "RequestConfigModel option"

text \<open>
  \<^verbatim>\<open>BuildInterpolationContextFromState\<close>. \<^verbatim>\<open>ElementsAs\<close> cannot decode an unknown map
  into a Go map and reports an error.
\<close>

definition BuildInterpolationContextFromState ::
  "HttpxRequestResourceModel \<Rightarrow> error + InterpolationContext" where
  "BuildInterpolationContextFromState state =
     (case m_Outputs state of
        MapUnknown \<Rightarrow> Inl ParseOutputsFailed
      | outputs \<Rightarrow>
          Inr \<lparr>ctx_ID = ValueString (m_Id state),
               ctx_Outputs = ConvertTerraformMap outputs,
               ctx_ResponseBody = (if \<not> IsNull (m_ResponseBody state)
                                   then ValueString (m_ResponseBody state) else []),
               ctx_StatusCode = m_StatusCode state\<rparr>)"

datatype delete_failure =
    BuildContextFailed error
  | InterpolateURLFailed error
  | InterpolateHeadersFailed error
  | InterpolateQueryFailed error
  | InterpolateBodyFailed error
  | InterpolateBodyJsonFailed error
  | BuildDestroyRequestFailed error
  | DestroyRequestFailed error
  | DestroyExpectationFailed error

definition and_then :: "'e + 'a \<Rightarrow> ('a \<Rightarrow> 'e + 'b) \<Rightarrow> 'e + 'b" where
  "and_then r f = (case r of Inl e \<Rightarrow> Inl e | Inr x \<Rightarrow> f x)"

definition to_tf_map :: "go_map \<Rightarrow> tf_map" where
  "to_tf_map m = MapValue (map (\<lambda>(k, v). (k, StringValue v)) m)"

text \<open>The interpolation steps of \<^verbatim>\<open>Delete\<close>, in the order of the source.\<close>

definition expand_url :: "InterpolationContext \<Rightarrow> RequestConfigModel \<Rightarrow> delete_failure + RequestConfigModel" where
  "expand_url interpolCtx dc =
     (if \<not> IsNull (dm_Url dc) then
        (case InterpolateString (ValueString (dm_Url dc)) interpolCtx of
           Inl err \<Rightarrow> Inl (InterpolateURLFailed err)
         | Inr expandedURL \<Rightarrow> Inr (dc\<lparr>dm_Url := StringValue expandedURL\<rparr>))
      else Inr dc)"

definition expand_headers :: "InterpolationContext \<Rightarrow> RequestConfigModel \<Rightarrow> delete_failure + RequestConfigModel" where
  "expand_headers interpolCtx dc =
     (if dm_Headers dc \<noteq> MapNull then
        (case InterpolateMap (ConvertTerraformMap (dm_Headers dc)) interpolCtx of
           Inl err \<Rightarrow> Inl (InterpolateHeadersFailed err)
         | Inr expandedHeaders \<Rightarrow> Inr (dc\<lparr>dm_Headers := to_tf_map expandedHeaders\<rparr>))
      else Inr dc)"

definition expand_blocks :: "InterpolationContext \<Rightarrow> RequestConfigModel \<Rightarrow> delete_failure + RequestConfigModel" where
  "expand_blocks interpolCtx dc =
     (if length (dm_HeaderBlocks dc) > 0 then
        (case InterpolateHeaderBlocks (dm_HeaderBlocks dc) interpolCtx of
           Inl err \<Rightarrow> Inl (InterpolateHeadersFailed err)
         | Inr expandedBlocks \<Rightarrow> Inr (dc\<lparr>dm_HeaderBlocks := expandedBlocks\<rparr>))
      else Inr dc)"

definition expand_query :: "InterpolationContext \<Rightarrow> RequestConfigModel \<Rightarrow> delete_failure + RequestConfigModel" where
  "expand_query interpolCtx dc =
     (if dm_Query dc \<noteq> MapNull then
        (case InterpolateMap (ConvertTerraformMap (dm_Query dc)) interpolCtx of
           Inl err \<Rightarrow> Inl (InterpolateQueryFailed err)
         | Inr expandedQuery \<Rightarrow> Inr (dc\<lparr>dm_Query := to_tf_map expandedQuery\<rparr>))
      else Inr dc)"

definition expand_body :: "InterpolationContext \<Rightarrow> RequestConfigModel \<Rightarrow> delete_failure + RequestConfigModel" where
  "expand_body interpolCtx dc =
     (if \<not> IsNull (dm_Body dc) then
        (case InterpolateString (ValueString (dm_Body dc)) interpolCtx of
           Inl err \<Rightarrow> Inl (InterpolateBodyFailed err)
         | Inr expandedBody \<Rightarrow> Inr (dc\<lparr>dm_Body := StringValue expandedBody\<rparr>))
      else Inr dc)"

definition expand_body_json :: "InterpolationContext \<Rightarrow> RequestConfigModel \<Rightarrow> delete_failure + RequestConfigModel" where
  "expand_body_json interpolCtx dc =
     (if \<not> IsNull (dm_BodyJson dc) then
        (case InterpolateString (ValueString (dm_BodyJson dc)) interpolCtx of
           Inl err \<Rightarrow> Inl (InterpolateBodyJsonFailed err)
         | Inr expandedBodyJson \<Rightarrow> Inr (dc\<lparr>dm_BodyJson := StringValue expandedBodyJson\<rparr>))
      else Inr dc)"

definition expand_destroy :: "InterpolationContext \<Rightarrow> RequestConfigModel \<Rightarrow> delete_failure + RequestConfigModel" where
  "expand_destroy interpolCtx destroyConfig =
     and_then (expand_url interpolCtx destroyConfig) (\<lambda>dc1.
     and_then (expand_headers interpolCtx dc1) (\<lambda>dc2.
     and_then (expand_blocks interpolCtx dc2) (\<lambda>dc3.
     and_then (expand_query interpolCtx dc3) (\<lambda>dc4.
     and_then (expand_body interpolCtx dc4) (\<lambda>dc5.
     expand_body_json interpolCtx dc5)))))"

definition destroy_request_config :: "ProviderConfig \<Rightarrow> RequestConfigModel \<Rightarrow> RequestConfig" where
  "destroy_request_config config dc =
     \<lparr>rq_Url = ValueString (dm_Url dc),
      rq_Method = ValueString (dm_Method dc),
      rq_Headers = ConvertTerraformMap (dm_Headers dc),
      rq_HeaderBlocks = dm_HeaderBlocks dc,
      rq_Query = ConvertTerraformMap (dm_Query dc),
      rq_Body = dm_Body dc,
      rq_BodyJson = dm_BodyJson dc,
      rq_BodyFile = dm_BodyFile dc,
      rq_BasicAuth = dm_BasicAuth dc,
      rq_BearerToken = dm_BearerToken dc,
      rq_ProviderDefaults = Some config\<rparr>"

text \<open>
  \<^verbatim>\<open>Delete\<close>. The outcome is the error diagnostic, if any, the number of calls of
  \<^verbatim>\<open>ExecuteRequest\<close> and the state the host holds afterwards: \<^verbatim>\<open>Delete\<close> never writes
  the state, and the framework drops it exactly when \<^verbatim>\<open>Delete\<close> returns without an
  error diagnostic.
\<close>

record delete_outcome =
  del_error :: "delete_failure option"
  del_calls :: nat
  del_state :: "HttpxRequestResourceModel option"

definition failed :: "HttpxRequestResourceModel \<Rightarrow> nat \<Rightarrow> delete_failure \<Rightarrow> delete_outcome" where
  "failed model n f = \<lparr>del_error = Some f, del_calls = n, del_state = Some model\<rparr>"

definition removed :: "nat \<Rightarrow> delete_outcome" where
  "removed n = \<lparr>del_error = None, del_calls = n, del_state = None\<rparr>"

definition Delete :: "world \<Rightarrow> ProviderConfig \<Rightarrow> HttpxRequestResourceModel \<Rightarrow> delete_outcome" where
  "Delete w config model =
     (case m_OnDestroy model of
        None \<Rightarrow> removed 0
      | Some destroyConfig0 \<Rightarrow>
          (case BuildInterpolationContextFromState model of
             Inl err \<Rightarrow> failed model 0 (BuildContextFailed err)
           | Inr interpolCtx \<Rightarrow>
               (case expand_destroy interpolCtx destroyConfig0 of
                  Inl f \<Rightarrow> failed model 0 f
                | Inr destroyConfig \<Rightarrow>
                    (case BuildRequest w (destroy_request_config config destroyConfig) of
                       Inl err \<Rightarrow> failed model 0 (BuildDestroyRequestFailed err)
                     | Inr httpReq \<Rightarrow>
                         (let out = ExecuteRequestWithRetry w httpReq config
                                      (BuildRetryConfig (dm_Retry destroyConfig))
                                      (BuildRetryUntilConfig (dm_RetryUntil destroyConfig))
                          in case out_err out of
                               Some err \<Rightarrow> failed model (out_calls out) (DestroyRequestFailed err)
                             | None \<Rightarrow>
                                 (case out_result out of
                                    None \<Rightarrow> failed model (out_calls out) (DestroyRequestFailed Panic)
                                  | Some result \<Rightarrow>
                                      (case ValidateExpectations result (dm_Expect destroyConfig) of
                                         Some err \<Rightarrow>
                                           failed model (out_calls out) (DestroyExpectationFailed err)
                                       | None \<Rightarrow> removed (out_calls out))))))))"

section \<open>Resource identifiers\<close>

text \<open>SHA-256 (\<^verbatim>\<open>crypto/sha256\<close>), on bytes as natural numbers below 256.\<close>

text \<open>
  The constants of the hash are the first 32 bits of the fractional parts of the cube
  roots (round constants) and square roots (initial state) of the first primes; they are
  computed here from that description.
\<close>

fun root_search :: "nat \<Rightarrow> nat \<Rightarrow> nat \<Rightarrow> nat \<Rightarrow> nat" where
  "root_search k n 0 r = r"
| "root_search k n (Suc b) r =
     (let r' = r + 2 ^ b in root_search k n b (if r' ^ k \<le> n then r' else r))"

definition root_fraction :: "nat \<Rightarrow> nat \<Rightarrow> 32 word" where
  "root_fraction k p = of_nat (root_search k (p * 2 ^ (32 * k)) 40 0 mod 2 ^ 32)"

definition is_prime :: "nat \<Rightarrow> bool" where
  "is_prime p = (2 \<le> p \<and> list_all (\<lambda>d. p mod d \<noteq> 0) [2..<p])"

definition first_primes :: "nat \<Rightarrow> nat list" where
  "first_primes n = take n (filter is_prime [2..<312])"

definition K256 :: "32 word list" where
  "K256 = map (root_fraction 3) (first_primes 64)"

definition H256 :: "32 word list" where
  "H256 = map (root_fraction 2) (first_primes 8)"

definition rotr :: "nat \<Rightarrow> 32 word \<Rightarrow> 32 word" where
  "rotr n x = drop_bit n x OR push_bit (32 - n) x"

definition bsig0 :: "32 word \<Rightarrow> 32 word" where
  "bsig0 x = rotr 2 x XOR rotr 13 x XOR rotr 22 x"

definition bsig1 :: "32 word \<Rightarrow> 32 word" where
  "bsig1 x = rotr 6 x XOR rotr 11 x XOR rotr 25 x"

definition ssig0 :: "32 word \<Rightarrow> 32 word" where
  "ssig0 x = rotr 7 x XOR rotr 18 x XOR drop_bit 3 x"

definition ssig1 :: "32 word \<Rightarrow> 32 word" where
  "ssig1 x = rotr 17 x XOR rotr 19 x XOR drop_bit 10 x"

definition Ch :: "32 word \<Rightarrow> 32 word \<Rightarrow> 32 word \<Rightarrow> 32 word" where
  "Ch x y z = (x AND y) XOR (NOT x AND z)"

definition Maj :: "32 word \<Rightarrow> 32 word \<Rightarrow> 32 word \<Rightarrow> 32 word" where
  "Maj x y z = (x AND y) XOR (x AND z) XOR (y AND z)"

definition be_bytes :: "nat \<Rightarrow> nat \<Rightarrow> nat list" where
  "be_bytes k n = map (\<lambda>i. (n div 256 ^ (k - 1 - i)) mod 256) [0..<k]"

definition sha_pad :: "nat list \<Rightarrow> nat list" where
  "sha_pad msg =
     msg @ [128] @ replicate ((119 - length msg mod 64) mod 64) 0 @ be_bytes 8 (8 * length msg)"

fun be_words :: "nat list \<Rightarrow> 32 word list" where
  "be_words (a # b # c # d # rest) =
     of_nat (((a * 256 + b) * 256 + c) * 256 + d) # be_words rest"
| "be_words _ = []"

fun extend :: "nat \<Rightarrow> 32 word list \<Rightarrow> 32 word list" where
  "extend 0 ws = ws"
| "extend (Suc n) ws =
     (let i = length ws in
      extend n (ws @ [ssig1 (ws ! (i - 2)) + ws ! (i - 7) + ssig0 (ws ! (i - 15)) + ws ! (i - 16)]))"

fun sha_round :: "32 word list \<Rightarrow> 32 word \<times> 32 word \<Rightarrow> 32 word list" where
  "sha_round [a, b, c, d, e, f, g, h] (k, x) =
     (let t1 = h + bsig1 e + Ch e f g + k + x;
          t2 = bsig0 a + Maj a b c
      in [t1 + t2, a, b, c, d + t1, e, f, g])"
| "sha_round st _ = st"

definition compress :: "32 word list \<Rightarrow> nat list \<Rightarrow> 32 word list" where
  "compress hs block =
     map (\<lambda>(x, y). x + y) (zip hs (foldl sha_round hs (zip K256 (extend 48 (be_words block)))))"

function blocks :: "nat list \<Rightarrow> nat list list" where
  "blocks bs = (if length bs < 64 then [] else take 64 bs # blocks (drop 64 bs))"
  by pat_completeness auto
termination
  by (relation "measure length") auto

declare blocks.simps [simp del]

definition Sum256 :: "nat list \<Rightarrow> nat list" where
  "Sum256 msg = concat (map (\<lambda>x. be_bytes 4 (unat x)) (foldl compress H256 (blocks (sha_pad msg))))"

text \<open>\<^verbatim>\<open>hex.EncodeToString\<close>.\<close>

definition hex_digit :: "nat \<Rightarrow> char" where
  "hex_digit n = ''0123456789abcdef'' ! (n mod 16)"

definition hexEncodeToString :: "nat list \<Rightarrow> string" where
  "hexEncodeToString bs = concat (map (\<lambda>b. [hex_digit (b div 16), hex_digit b]) bs)"

text \<open>
  \<^verbatim>\<open>generateResourceID\<close>: the hash input is \<^verbatim>\<open>url|method|body\<close>, of the three
  \<^verbatim>\<open>ValueString()\<close>s.
\<close>

definition hashInput :: "HttpxRequestResourceModel \<Rightarrow> string" where
  "hashInput model =
     ValueString (m_Url model) @ ''|'' @ ValueString (m_Method model) @ ''|'' @ ValueString (m_Body model)"

definition generateResourceID :: "HttpxRequestResourceModel \<Rightarrow> string" where
  "generateResourceID model = take 16 (hexEncodeToString (Sum256 (map of_char (hashInput model))))"

section \<open>Concrete inputs\<close>

text \<open>
  A world for the examples: every URL and method is accepted, the only JSON text is
  \<^verbatim>\<open>{}\<close>, no file opens, the client is created, the context is never done, no JSON
  path condition holds, no regular expression compiles, no date parses and the jitter is
  zero. The transport is the argument.
\<close>

definition example_world :: "(nat \<Rightarrow> http_request \<Rightarrow> http_outcome) \<Rightarrow> world" where
  "example_world transport =
     \<lparr>parseURL = (\<lambda>u. True), urlString = (\<lambda>u q. u), newRequestOk = (\<lambda>m u. True),
      jsonCompact = (\<lambda>s. if s = ''{}'' then Some ''{}'' else None),
      readFile = (\<lambda>p. OpenFails), newClientErr = None, roundTrip = transport,
      ctxDone = (\<lambda>n. False), jsonPathConditions = (\<lambda>b c. False),
      regexMatch = (\<lambda>p b. None), httpDate = (\<lambda>s. None), jitterMs = (\<lambda>d. 0),
      powOutOfRange = - (2 ^ 63)\<rparr>"

definition example_provider :: "int \<Rightarrow> ProviderConfig" where
  "example_provider maxBytes =
     \<lparr>pc_DefaultHeaders = [], pc_BasicAuth = None, pc_BearerToken = None,
      pc_RedactHeaders = [''Authorization'', ''Proxy-Authorization'', ''X-Api-Key''],
      pc_MaxResponseBodyBytes = maxBytes\<rparr>"

definition example_request :: http_request where
  "example_request =
     \<lparr>req_Method = ''GET'', req_URL = ''https://example.test/ok'', req_Body = None, req_Header = []\<rparr>"

text \<open>Transports that answer every request alike.\<close>

definition always_status :: "int \<Rightarrow> string \<Rightarrow> nat \<Rightarrow> http_request \<Rightarrow> http_outcome" where
  "always_status status body i req = Response status [] body None"

definition always_fails :: "nat \<Rightarrow> http_request \<Rightarrow> http_outcome" where
  "always_fails i req = TransportError ''connection refused''"

definition retry_503 :: RetryConfig where
  "retry_503 =
     \<lparr>Attempts = 3, MinDelayMs = 100, MaxDelayMs = 1000, Backoff = ''exponential'',
      Jitter = False, RetryOnStatusCodes = [503], RespectRetryAfter = False\<rparr>"

definition until_200 :: RetryUntilConfig where
  "until_200 = \<lparr>ru_StatusCodes = [200], ru_JsonPathEquals = [], ru_HeaderEquals = [], ru_BodyRegex = []\<rparr>"

text \<open>The default polling policy with the jitter switched off.\<close>

definition polling_no_jitter :: RetryConfig where
  "polling_no_jitter = defaultPollingConfig\<lparr>Jitter := False\<rparr>"

text \<open>A response that is not JSON, and expectations with JSON path checks.\<close>

definition not_json_result :: ResponseResult where
  "not_json_result =
     \<lparr>StatusCode = 200, Headers = [], Body = ''not json'', AttemptCount = 1, Error = []\<rparr>"

definition expect_json_paths :: ExpectModel where
  "expect_json_paths =
     \<lparr>ex_StatusCodes = ListValue [200],
      ex_JsonPathExists = ListValue [StringValue ''data.id''],
      ex_JsonPathEquals = MapValue [(''data.ready'', StringValue ''true'')],
      ex_HeaderPresent = ListNull\<rparr>"

text \<open>A JSON body sent with a media type of the caller's, under a lower-case key.\<close>

definition json_with_media_type :: RequestConfig where
  "json_with_media_type =
     \<lparr>rq_Url = ''https://example.test/items'', rq_Method = ''POST'',
      rq_Headers = [(''content-type'', ''application/vnd.api+json'')],
      rq_HeaderBlocks = [], rq_Query = [],
      rq_Body = StringNull, rq_BodyJson = StringValue ''{}'', rq_BodyFile = StringNull,
      rq_BasicAuth = None, rq_BearerToken = StringNull, rq_ProviderDefaults = None\<rparr>"

text \<open>Two resource models with the same URL, method and raw body.\<close>

definition model_a :: HttpxRequestResourceModel where
  "model_a =
     \<lparr>m_Id = StringNull, m_StatusCode = 0, m_ResponseBody = StringNull, m_Outputs = MapNull,
      m_Url = StringValue ''https://example.test/ok'', m_Method = StringValue ''POST'',
      m_Headers = MapNull, m_Query = MapNull,
      m_Body = StringNull, m_BodyJson = StringValue ''{}'', m_BodyFile = StringNull,
      m_OnDestroy = None\<rparr>"

definition model_b :: HttpxRequestResourceModel where
  "model_b =
     model_a\<lparr>m_BodyJson := StringValue ''[1]'',
             m_Headers := MapValue [(''X-Trace'', StringValue ''on'')],
             m_Query := MapValue [(''page'', StringValue ''2'')]\<rparr>"

section \<open>Credentials in order of precedence\<close>

text \<open>
  The order of precedence among the configured credentials, as a function: the
  request's Bearer token, the provider's Bearer token, the request's Basic credential,
  the provider's Basic credential. A Basic credential counts when user name and password
  are both non-empty; the provider's one is consulted only when the request has no
  \<^verbatim>\<open>basic_auth\<close> block.
\<close>

definition provider_bearer :: "RequestConfig \<Rightarrow> string option" where
  "provider_bearer config =
     (case rq_ProviderDefaults config of None \<Rightarrow> None | Some d \<Rightarrow> pc_BearerToken d)"

definition provider_basic :: "RequestConfig \<Rightarrow> BasicAuthModel option" where
  "provider_basic config =
     (case rq_ProviderDefaults config of None \<Rightarrow> None | Some d \<Rightarrow> pc_BasicAuth d)"

definition expected_authorization :: "RequestConfig \<Rightarrow> string option" where
  "expected_authorization config =
     (if is_set (rq_BearerToken config)
      then Some (''Bearer '' @ ValueString (rq_BearerToken config))
      else (case provider_bearer config of
              Some token \<Rightarrow> Some (''Bearer '' @ token)
            | None \<Rightarrow>
                (case rq_BasicAuth config of
                   Some ba \<Rightarrow>
                     if ValueString (rba_Username ba) \<noteq> [] \<and> ValueString (rba_Password ba) \<noteq> []
                     then Some (basicCredential (ValueString (rba_Username ba))
                                  (ValueString (rba_Password ba)))
                     else None
                 | None \<Rightarrow>
                     (case provider_basic config of
                        Some pba \<Rightarrow>
                          if ba_Username pba \<noteq> [] \<and> ba_Password pba \<noteq> []
                          then Some (basicCredential (ba_Username pba) (ba_Password pba))
                          else None
                      | None \<Rightarrow> None))))"

text \<open>
  A request with its own Basic credential and no Bearer token, under a provider with a
  default Bearer token; and the same request under a provider with a default Basic
  credential only.
\<close>

definition basic_request :: "ProviderConfig \<Rightarrow> RequestConfig" where
  "basic_request defaults =
     \<lparr>rq_Url = ''https://example.test/ok'', rq_Method = ''GET'', rq_Headers = [],
      rq_HeaderBlocks = [], rq_Query = [],
      rq_Body = StringNull, rq_BodyJson = StringNull, rq_BodyFile = StringNull,
      rq_BasicAuth = Some \<lparr>rba_Username = StringValue ''user'', rba_Password = StringValue ''pass''\<rparr>,
      rq_BearerToken = StringNull, rq_ProviderDefaults = Some defaults\<rparr>"

definition provider_with_bearer :: ProviderConfig where
  "provider_with_bearer = (example_provider 1048576)\<lparr>pc_BearerToken := Some ''provider-token''\<rparr>"

definition provider_with_basic :: ProviderConfig where
  "provider_with_basic =
     (example_provider 1048576)\<lparr>pc_BasicAuth := Some \<lparr>ba_Username = ''admin'', ba_Password = ''secret''\<rparr>\<rparr>"

section \<open>Header names and the redaction marker\<close>

text \<open>The names the marker cannot rebuild: no bracket, and no part of its inner word.\<close>

definition plain_name :: "string \<Rightarrow> bool" where
  "plain_name H =
     (H \<noteq> [] \<and> CHR ''['' \<notin> set H \<and> CHR '']'' \<notin> set H \<and> \<not> Contains ''REDACTED'' H)"

section \<open>Destroy specifications and missing keys\<close>

text \<open>A key of the outputs pattern: one or more characters of \<^verbatim>\<open>[a-zA-Z0-9_]\<close>.\<close>

definition valid_key :: "string \<Rightarrow> bool" where
  "valid_key key = (key \<noteq> [] \<and> list_all isKeyChar key)"

text \<open>
  The strings of a destroy specification that \<^verbatim>\<open>Delete\<close> interpolates: the URL, the
  values of the header map, the values of the header blocks, the values of the query map,
  the raw body and the JSON body.
\<close>

definition template_fields :: "RequestConfigModel \<Rightarrow> string list" where
  "template_fields dc =
     [ValueString (dm_Url dc)]
     @ map snd (ConvertTerraformMap (dm_Headers dc))
     @ map (\<lambda>block. ValueString (hb_Value block)) (dm_HeaderBlocks dc)
     @ map snd (ConvertTerraformMap (dm_Query dc))
     @ [ValueString (dm_Body dc), ValueString (dm_BodyJson dc)]"

definition mentions :: "string \<Rightarrow> RequestConfigModel \<Rightarrow> bool" where
  "mentions key dc = list_ex (\<lambda>text'. Contains text' (outputsTemplate key)) (template_fields dc)"

text \<open>The key that a failure of \<^verbatim>\<open>Delete\<close> reports as missing, if it reports one.\<close>

fun missing_key_of :: "error \<Rightarrow> string option" where
  "missing_key_of (OutputKeyNotFound key) = Some key"
| "missing_key_of (InterpolateMapFailed name err) = missing_key_of err"
| "missing_key_of (InterpolateHeaderFailed name err) = missing_key_of err"
| "missing_key_of _ = None"

fun missing_key :: "delete_failure \<Rightarrow> string option" where
  "missing_key (InterpolateURLFailed err) = missing_key_of err"
| "missing_key (InterpolateHeadersFailed err) = missing_key_of err"
| "missing_key (InterpolateQueryFailed err) = missing_key_of err"
| "missing_key (InterpolateBodyFailed err) = missing_key_of err"
| "missing_key (InterpolateBodyJsonFailed err) = missing_key_of err"
| "missing_key _ = None"

text \<open>
  The state of the repository's test \<^verbatim>\<open>TestDeleteMissingInterpolationKey\<close>: no outputs,
  and a destroy URL that refers to the output \<^verbatim>\<open>user_id\<close>.
\<close>

definition plain_destroy :: "string \<Rightarrow> RequestConfigModel" where
  "plain_destroy url =
     \<lparr>dm_Url = StringValue url, dm_Method = StringValue ''DELETE'',
      dm_Headers = MapNull, dm_Query = MapNull,
      dm_Body = StringNull, dm_BodyJson = StringNull, dm_BodyFile = StringNull,
      dm_BearerToken = StringNull, dm_HeaderBlocks = [], dm_BasicAuth = None,
      dm_Retry = None, dm_RetryUntil = None, dm_Expect = None\<rparr>"

definition state_without_outputs :: "string \<Rightarrow> HttpxRequestResourceModel" where
  "state_without_outputs url =
     \<lparr>m_Id = StringValue ''res-123'', m_StatusCode = 200, m_ResponseBody = StringNull,
      m_Outputs = MapValue [],
      m_Url = StringValue ''https://api.example.com/users'', m_Method = StringValue ''POST'',
      m_Headers = MapNull, m_Query = MapNull,
      m_Body = StringNull, m_BodyJson = StringNull, m_BodyFile = StringNull,
      m_OnDestroy = Some (plain_destroy url)\<rparr>"

definition one_missing_url :: string where
  "one_missing_url = ''https://api.example.com/users/${self.outputs.user_id}''"

definition two_missing_url :: string where
  "two_missing_url = ''https://api.example.com/${self.outputs.a}/${self.outputs.b}''"

section \<open>Exhaustion errors\<close>

text \<open>The errors that only the statements after the retry loop build.\<close>

fun is_exhausted :: "error \<Rightarrow> bool" where
  "is_exhausted (ExhaustedConditions n rs) = True"
| "is_exhausted (ExhaustedStatus n status) = True"
| "is_exhausted (ExhaustedError n err) = True"
| "is_exhausted (Exhausted n) = True"
| "is_exhausted _ = False"

definition reports_exhaustion :: "retry_outcome \<Rightarrow> bool" where
  "reports_exhaustion out = (case out_err out of None \<Rightarrow> False | Some err \<Rightarrow> is_exhausted err)"

section \<open>Properties\<close>

lemmas exec_defs =
  ExecuteRequestWithRetry_def ExecuteRequest_def example_world_def example_provider_def
  example_request_def always_status_def always_fails_def retry_503_def until_200_def
  initial_state_def LimitReader_def TruncateString_def EvaluateRetryUntil_def ShouldRetry_def
  returns_def nextRetryAfter_def CalculateDelay_def pow2_def RedactError_def redact_step_def
  ToLower_def lower_char_def upper_letters_def lower_letters_def retry_loop.simps

lemmas canonical_defs =
  CanonicalMIMEHeaderKey_def validHeaderFieldByte_def Let_def upper_char_def lower_char_def
  upper_letters_def lower_letters_def

lemma canonical_content_type: "CanonicalMIMEHeaderKey ''content-type'' = ''Content-Type''"
  by (simp add: canonical_defs)

lemma canonical_Authorization: "CanonicalMIMEHeaderKey ''Authorization'' = ''Authorization''"
  by (simp add: canonical_defs)

subsection \<open>The body size cap\<close>

text \<open>
  Claim C5. A response body that reaches \<^verbatim>\<open>max_response_body_bytes\<close> should come back cut
  at the cap with the sentinel \<^verbatim>\<open>... [TRUNCATED]\<close> appended. With a cap of 4 bytes and the
  body \<^verbatim>\<open>abcdefgh\<close>, \<^verbatim>\<open>ExecuteRequest\<close> returns the body \<^verbatim>\<open>abcd\<close>: the limited
  reader has already cut the body to the cap, so \<^verbatim>\<open>TruncateString\<close> finds nothing longer
  than the cap and appends no sentinel.
\<close>

theorem ExecuteRequest_cap_without_sentinel:
  "ExecuteRequest (example_world (always_status 200 ''abcdefgh'')) example_request
     (example_provider 4) 0
   = (Some \<lparr>StatusCode = 200, Headers = [], Body = ''abcd'', AttemptCount = 1, Error = []\<rparr>,
      None)"
  by (simp add: exec_defs)

text \<open>
  Whatever the transport answers, a body read without error under a cap that is not
  negative comes back as its first \<^verbatim>\<open>cap\<close> bytes and nothing else.
\<close>

lemma ExecuteRequest_body_is_cut:
  assumes "newClientErr w = None"
    and "roundTrip w i req = Response status header body None"
    and "0 \<le> pc_MaxResponseBodyBytes cfg"
  shows "\<exists>r. ExecuteRequest w req cfg i = (Some r, None)
           \<and> Body r = take (nat (pc_MaxResponseBodyBytes cfg)) body"
  using assms
  by (auto simp: ExecuteRequest_def LimitReader_def TruncateString_def Let_def)

subsection \<open>The retry loop\<close>

text \<open>
  Claim C1. When the attempts are used up and the poll condition never held, or the last
  status is still a retryable one, the call should return an error. With three attempts
  and a transport that always answers 500 against \<^verbatim>\<open>retry_until.status_codes = [200]\<close>,
  and with a transport that always answers 503 against
  \<^verbatim>\<open>retry_on_status_codes = [503]\<close>, \<^verbatim>\<open>ExecuteRequestWithRetry\<close> returns the last
  response with no error: on the last attempt neither retry branch is taken
  (\<^verbatim>\<open>attempt < attempts\<close> fails) and control reaches \<^verbatim>\<open>return result, nil\<close>.
\<close>

theorem ExecuteRequestWithRetry_exhausted_returns_success:
  "ExecuteRequestWithRetry (example_world (always_status 500 ''bad'')) example_request
     (example_provider 1048576) (Some retry_503) (Some until_200)
   = \<lparr>out_result = Some \<lparr>StatusCode = 500, Headers = [], Body = ''bad'', AttemptCount = 3,
                           Error = []\<rparr>,
      out_err = None, out_calls = 3, out_sleeps = [100000000, 200000000]\<rparr>
   \<and> ExecuteRequestWithRetry (example_world (always_status 503 ''busy'')) example_request
       (example_provider 1048576) (Some retry_503) None
     = \<lparr>out_result = Some \<lparr>StatusCode = 503, Headers = [], Body = ''busy'', AttemptCount = 3,
                             Error = []\<rparr>,
        out_err = None, out_calls = 3, out_sleeps = [100000000, 200000000]\<rparr>"
  by (simp add: exec_defs)

text \<open>
  Claim C2. With \<^verbatim>\<open>attempts = k\<close> and a transport that always fails, the result should
  have \<^verbatim>\<open>attempt_count = k\<close> and the error should be the transport error wrapped with the
  exhaustion. With three attempts the request is sent three times, and the call returns
  the result of the last \<^verbatim>\<open>ExecuteRequest\<close> as it is: \<^verbatim>\<open>AttemptCount = 1\<close> and the
  error \<^verbatim>\<open>request failed: ...\<close> without the exhaustion wrapper.
\<close>

theorem ExecuteRequestWithRetry_transport_errors_count_one:
  "ExecuteRequestWithRetry (example_world always_fails) example_request
     (example_provider 1048576) (Some retry_503) None
   = \<lparr>out_result = Some \<lparr>StatusCode = 0, Headers = [], Body = [], AttemptCount = 1,
                           Error = ''connection refused''\<rparr>,
      out_err = Some (RequestFailed ''connection refused''), out_calls = 3,
      out_sleeps = [100000000, 200000000]\<rparr>"
  by (simp add: exec_defs)

lemma ExecuteRequest_error_not_exhausted:
  assumes "ExecuteRequest w req cfg i = (r, Some err)"
  shows "\<not> is_exhausted err"
  using assms
  by (auto simp: ExecuteRequest_def Let_def split: option.splits http_outcome.splits if_splits)

text \<open>
  The statements after the loop are never reached: a loop that starts at an attempt
  within the limit returns from inside, so no outcome carries an exhaustion error.
\<close>

lemma retry_loop_after_error:
  assumes "attempt \<le> attempts"
    and "ExecuteRequest w req config (calls st) = (result, Some e)"
  shows "retry_loop w req config rc ruc attempts attempt st =
     (if e = Panic then returns (st\<lparr>calls := calls st + 1\<rparr>) None (Some Panic)
      else if attempts \<le> attempt
      then returns (st\<lparr>calls := calls st + 1, lastErr := Some e, lastResult := result\<rparr>)
             result (Some e)
      else if ctxDone w attempt
      then returns (st\<lparr>calls := calls st + 1, lastErr := Some e, lastResult := result,
                       sleeps := sleeps st @ [CalculateDelay w rc (word_of_int attempt) []]\<rparr>)
             result (Some ContextDone)
      else retry_loop w req config rc ruc attempts (attempt + 1)
             (st\<lparr>calls := calls st + 1, lastErr := Some e, lastResult := result,
                 sleeps := sleeps st @ [CalculateDelay w rc (word_of_int attempt) []]\<rparr>))"
  using assms
  by (subst retry_loop.simps) (simp add: ShouldRetry_def Let_def split: option.splits)

lemma retry_loop_after_response:
  assumes "attempt \<le> attempts"
    and "ExecuteRequest w req config (calls st) = (Some result, None)"
  shows "\<exists>st'. retry_loop w req config rc ruc attempts attempt st =
     (if attempt < attempts
         \<and> (if ruc \<noteq> None then \<not> fst (EvaluateRetryUntil w ruc result)
             else ShouldRetry rc None (StatusCode result))
      then (if ctxDone w attempt then returns st' (Some result) (Some ContextDone)
            else retry_loop w req config rc ruc attempts (attempt + 1)
                   (st'\<lparr>lastResult := Some result\<rparr>))
      else returns (st\<lparr>calls := calls st + 1\<rparr>) (Some (result\<lparr>AttemptCount := attempt\<rparr>)) None)"
  using assms
  by (subst retry_loop.simps) (auto simp: Let_def split: prod.splits)

lemma retry_loop_never_exhausted:
  assumes "attempt \<le> attempts"
  shows "\<not> reports_exhaustion (retry_loop w req config rc ruc attempts attempt st)"
  using assms
proof (induction "nat (attempts - attempt)" arbitrary: attempt st rule: less_induct)
  case less
  have next_attempt:
    "\<not> reports_exhaustion (retry_loop w req config rc ruc attempts (attempt + 1) st')"
    if "attempt < attempts" for st'
    using that by (intro less.hyps) simp_all
  obtain result err where exec: "ExecuteRequest w req config (calls st) = (result, err)"
    by (cases "ExecuteRequest w req config (calls st)")
  show ?case
  proof (cases err)
    case (Some e)
    with exec have "\<not> is_exhausted e" using ExecuteRequest_error_not_exhausted by blast
    with next_attempt show ?thesis
      unfolding retry_loop_after_error [OF less.prems exec [unfolded Some]]
      by (auto simp: reports_exhaustion_def returns_def)
  next
    case None
    show ?thesis
    proof (cases result)
      case no_result: None
      with exec None less.prems show ?thesis
        by (subst retry_loop.simps) (simp add: reports_exhaustion_def returns_def)
    next
      case (Some r)
      from retry_loop_after_response [OF less.prems exec [unfolded None Some], of rc ruc]
      obtain st' where "retry_loop w req config rc ruc attempts attempt st =
         (if attempt < attempts
             \<and> (if ruc \<noteq> None then \<not> fst (EvaluateRetryUntil w ruc r)
                 else ShouldRetry rc None (StatusCode r))
          then (if ctxDone w attempt then returns st' (Some r) (Some ContextDone)
                else retry_loop w req config rc ruc attempts (attempt + 1)
                       (st'\<lparr>lastResult := Some r\<rparr>))
          else returns (st\<lparr>calls := calls st + 1\<rparr>) (Some (r\<lparr>AttemptCount := attempt\<rparr>)) None)"
        by blast
      with next_attempt show ?thesis
        by (auto simp: reports_exhaustion_def returns_def)
    qed
  qed
qed

lemma ExecuteRequestWithRetry_never_exhausted:
  "\<not> reports_exhaustion (ExecuteRequestWithRetry w req config retryConfig retryUntilConfig)"
proof (cases "retryConfig = None \<and> retryUntilConfig = None")
  case True
  obtain result err where exec: "ExecuteRequest w req config 0 = (result, err)"
    by (cases "ExecuteRequest w req config 0")
  then have "err = Some e \<Longrightarrow> \<not> is_exhausted e" for e
    using ExecuteRequest_error_not_exhausted by blast
  with True exec show ?thesis
    by (auto simp: ExecuteRequestWithRetry_def reports_exhaustion_def split: option.splits)
next
  case False
  then show ?thesis
    by (auto simp: ExecuteRequestWithRetry_def Let_def intro!: retry_loop_never_exhausted)
qed

subsection \<open>The retry delay\<close>

text \<open>
  Claim C8. The exponential delay should be \<^verbatim>\<open>min_delay_ms * 2^(n-1)\<close> capped at
  \<^verbatim>\<open>max_delay_ms\<close>. Under the default polling policy (1000 ms, cap 5000 ms, jitter off
  here) attempt 54 is capped at 5000 ms, but at attempt 55 the product
  \<^verbatim>\<open>1000 * 2^54\<close> wraps around in \<^verbatim>\<open>int64\<close> to a negative number, which the cap lets
  through: the delay returned is negative (\<open>- 2^63\<close> ns), in any world.
\<close>

theorem CalculateDelay_wraps_past_the_cap:
  "CalculateDelay w polling_no_jitter 54 [] = 5000 * 1000000
   \<and> CalculateDelay w polling_no_jitter 55 [] = - (2 ^ 63)
   \<and> sint (CalculateDelay w polling_no_jitter 55 []) < 0"
  by (simp add: CalculateDelay_def polling_no_jitter_def defaultPollingConfig_def pow2_def)

subsection \<open>Expectations\<close>

text \<open>
  Claim C3. Expectations with \<^verbatim>\<open>json_path_exists\<close> or \<^verbatim>\<open>json_path_equals\<close> should be
  checked against the body, and a body that is not JSON should fail them. For the body
  \<^verbatim>\<open>not json\<close> and expectations that require the path \<^verbatim>\<open>data.id\<close> and
  \<^verbatim>\<open>data.ready = true\<close>, \<^verbatim>\<open>ValidateExpectations\<close> reports no error: it checks the
  status code and the headers only.
\<close>

theorem ValidateExpectations_ignores_json_paths:
  "ValidateExpectations not_json_result (Some expect_json_paths) = None"
  by (simp add: ValidateExpectations_def not_json_result_def expect_json_paths_def
      tf_list_set_def)

text \<open>The result does not depend on the body or on the JSON path expectations.\<close>

lemma ValidateExpectations_reads_no_json_path:
  "ValidateExpectations (result\<lparr>Body := body\<rparr>)
     (Some (ex\<lparr>ex_JsonPathExists := paths, ex_JsonPathEquals := equals\<rparr>))
   = ValidateExpectations result (Some ex)"
  by (simp add: ValidateExpectations_def Let_def)

subsection \<open>The request builder\<close>

text \<open>
  Claim C9. With a JSON body the builder should set \<^verbatim>\<open>Content-Type: application/json\<close>
  only when no \<^verbatim>\<open>Content-Type\<close> header is present under any spelling, and keep a value
  that is present. For the request headers \<^verbatim>\<open>{"content-type": "application/vnd.api+json"}\<close>
  the built request carries \<^verbatim>\<open>Content-Type: application/json\<close>: the builder looks for
  the key \<^verbatim>\<open>Content-Type\<close> as spelled, finds none, and overwrites the merged entry.
\<close>

theorem BuildRequest_overwrites_content_type:
  "BuildRequest (example_world always_fails) json_with_media_type
   = Inr \<lparr>req_Method = ''POST'', req_URL = ''https://example.test/items'',
          req_Body = Some ''{}'',
          req_Header = [(''Content-Type'', [''application/json''])]\<rparr>"
  by (simp add: BuildRequest_def json_with_media_type_def example_world_def is_set_def
      select_body_def map_get_def merge_headers_def apply_headers_def header_Add_def
      canonical_content_type ToLower_def lower_char_def upper_letters_def lower_letters_def
      set_basic_auth_def set_bearer_auth_def)

subsection \<open>Resource identifiers\<close>

lemma length_sha_round: "length (sha_round st kx) = length st"
  by (induction st kx rule: sha_round.induct) (simp_all add: Let_def)

lemma length_foldl_sha_round: "length (foldl sha_round st kxs) = length st"
  by (induction kxs arbitrary: st) (simp_all add: length_sha_round)

lemma length_compress: "length (compress hs block) = length hs"
  by (simp add: compress_def length_foldl_sha_round)

lemma length_foldl_compress: "length (foldl compress hs bs) = length hs"
  by (induction bs arbitrary: hs) (simp_all add: length_compress)

lemma small_primes: "filter is_prime [2..<20] = [2, 3, 5, 7, 11, 13, 17, 19]"
  by (simp add: is_prime_def upt_rec)

lemma length_first_primes_8: "length (first_primes 8) = 8"
proof -
  have "[2..<312] = [2..<20] @ [20..<312]"
    using upt_add_eq_append [of 2 18 292] by simp
  then have "filter is_prime [2..<312] = filter is_prime [2..<20] @ filter is_prime [20..<312]"
    by (simp only: filter_append)
  then obtain rest where "filter is_prime [2..<312] = [2, 3, 5, 7, 11, 13, 17, 19] @ rest"
    by (simp only: small_primes)
  then show ?thesis by (simp add: first_primes_def)
qed

lemma length_concat_be_bytes: "length (concat (map (\<lambda>x. be_bytes 4 (f x)) xs)) = 4 * length xs"
  by (induction xs) (simp_all add: be_bytes_def)

lemma length_Sum256: "length (Sum256 msg) = 32"
  by (simp add: Sum256_def length_concat_be_bytes length_foldl_compress H256_def
      length_first_primes_8)

lemma length_hexEncodeToString: "length (hexEncodeToString bs) = 2 * length bs"
  by (induction bs) (simp_all add: hexEncodeToString_def)

lemma hex_digit_in: "hex_digit n \<in> set ''0123456789abcdef''"
proof -
  have "n mod 16 < length ''0123456789abcdef''" by simp
  then show ?thesis unfolding hex_digit_def by (rule nth_mem)
qed

lemma set_hexEncodeToString: "set (hexEncodeToString bs) \<subseteq> set ''0123456789abcdef''"
  using hex_digit_in by (auto simp: hexEncodeToString_def)

text \<open>
  Claim C10. \<^verbatim>\<open>generateResourceID\<close> is the first 16 hexadecimal characters of the SHA-256
  digest of \<^verbatim>\<open>url|method|body\<close>, built from the URL, the method and the raw body only;
  so two models that agree on these three get the same identifier, whatever their
  \<^verbatim>\<open>body_json\<close>, \<^verbatim>\<open>body_file\<close>, headers or query.
\<close>

theorem generateResourceID_of_url_method_body:
  "generateResourceID model =
     take 16 (hexEncodeToString (Sum256 (map of_char
       (ValueString (m_Url model) @ ''|'' @ ValueString (m_Method model) @ ''|''
        @ ValueString (m_Body model)))))
   \<and> length (generateResourceID model) = 16
   \<and> set (generateResourceID model) \<subseteq> set ''0123456789abcdef''
   \<and> (ValueString (m_Url model) = ValueString (m_Url model')
        \<and> ValueString (m_Method model) = ValueString (m_Method model')
        \<and> ValueString (m_Body model) = ValueString (m_Body model')
      \<longrightarrow> generateResourceID model = generateResourceID model')"
proof -
  have "set (generateResourceID model) \<subseteq> set (hexEncodeToString (Sum256 (map of_char (hashInput model))))"
    unfolding generateResourceID_def by (rule set_take_subset)
  then have "set (generateResourceID model) \<subseteq> set ''0123456789abcdef''"
    using set_hexEncodeToString by blast
  then show ?thesis
    by (simp add: generateResourceID_def hashInput_def length_hexEncodeToString length_Sum256)
qed

theorem generateResourceID_of_url_method_body_witness:
  "ValueString (m_Url model_a) = ValueString (m_Url model_b)
   \<and> ValueString (m_Method model_a) = ValueString (m_Method model_b)
   \<and> ValueString (m_Body model_a) = ValueString (m_Body model_b)
   \<and> m_BodyJson model_a \<noteq> m_BodyJson model_b
   \<and> m_Headers model_a \<noteq> m_Headers model_b
   \<and> m_Query model_a \<noteq> m_Query model_b
   \<and> generateResourceID model_a = generateResourceID model_b"
proof -
  have same: "ValueString (m_Url model_a) = ValueString (m_Url model_b)
      \<and> ValueString (m_Method model_a) = ValueString (m_Method model_b)
      \<and> ValueString (m_Body model_a) = ValueString (m_Body model_b)"
    by (simp add: model_a_def model_b_def)
  have differ: "m_BodyJson model_a \<noteq> m_BodyJson model_b
      \<and> m_Headers model_a \<noteq> m_Headers model_b \<and> m_Query model_a \<noteq> m_Query model_b"
    by (simp add: model_a_def model_b_def)
  have "generateResourceID model_a = generateResourceID model_b"
    using generateResourceID_of_url_method_body [of model_a model_b] same by (elim conjE) simp
  with same differ show ?thesis by (elim conjE) (intro conjI)
qed

subsection \<open>Authentication\<close>

lemma basicCredential_user_pass: "basicCredential ''user'' ''pass'' = ''Basic dXNlcjpwYXNz''"
  by (simp add: basicCredential_def EncodeToString_def b64_char_def)

lemma Authorization_after_Set:
  "map_of (header_Set h ''Authorization'' v) ''Authorization'' = Some [v]"
  by (simp add: header_Set_def canonical_Authorization update_conv')

lemma BuildRequest_header:
  assumes "BuildRequest w config = Inr req"
  shows "\<exists>h. req_Header req = set_bearer_auth config (set_basic_auth config h)"
  using assms
  by (auto simp: BuildRequest_def Let_def split: if_splits sum.splits prod.splits)

lemma known_or_empty:
  "(if \<not> IsNull x \<and> \<not> IsUnknown x then ValueString x else []) = ValueString x"
  by (cases x) simp_all

lemma Authorization_of_auth_steps:
  assumes "expected_authorization config = Some v"
  shows "map_of (set_bearer_auth config (set_basic_auth config h)) ''Authorization'' = Some [v]"
proof (cases "is_set (rq_BearerToken config)")
  case True
  with assms show ?thesis
    by (simp add: expected_authorization_def set_bearer_auth_def Authorization_after_Set)
next
  case no_token: False
  show ?thesis
  proof (cases "provider_bearer config")
    case (Some token)
    with no_token assms show ?thesis
      by (auto simp: expected_authorization_def provider_bearer_def set_bearer_auth_def
          Authorization_after_Set split: option.splits)
  next
    case None
    then have bearer: "set_bearer_auth config h' = h'" for h'
      using no_token by (auto simp: provider_bearer_def set_bearer_auth_def split: option.splits)
    from None no_token assms show ?thesis
      unfolding bearer
      by (auto simp: expected_authorization_def provider_basic_def set_basic_auth_def Let_def
          known_or_empty Authorization_after_Set split: option.splits if_splits)
  qed
qed

text \<open>
  Claim C6, as the code has it. When a credential is configured, the built request has
  exactly one value under \<^verbatim>\<open>Authorization\<close>, chosen in the order request Bearer,
  provider Bearer, request Basic, provider Basic: the Basic statement of the builder runs
  first and either Bearer token overwrites what it wrote.
\<close>

theorem BuildRequest_authorization_precedence:
  assumes "BuildRequest w config = Inr req"
    and "expected_authorization config = Some v"
  shows "map_of (req_Header req) ''Authorization'' = Some [v]"
  using BuildRequest_header [OF assms(1)] Authorization_of_auth_steps [OF assms(2)] by auto

theorem BuildRequest_authorization_precedence_witness:
  "BuildRequest (example_world always_fails) (basic_request provider_with_basic)
     = Inr \<lparr>req_Method = ''GET'', req_URL = ''https://example.test/ok'', req_Body = None,
            req_Header = [(''Authorization'', [''Basic dXNlcjpwYXNz''])]\<rparr>
   \<and> expected_authorization (basic_request provider_with_basic) = Some ''Basic dXNlcjpwYXNz''
   \<and> map_of (req_Header \<lparr>req_Method = ''GET'', req_URL = ''https://example.test/ok'',
                            req_Body = None,
                            req_Header = [(''Authorization'', [''Basic dXNlcjpwYXNz''])]\<rparr>)
         ''Authorization''
       = Some [''Basic dXNlcjpwYXNz'']"
proof -
  have built: "BuildRequest (example_world always_fails) (basic_request provider_with_basic)
     = Inr \<lparr>req_Method = ''GET'', req_URL = ''https://example.test/ok'', req_Body = None,
            req_Header = [(''Authorization'', [''Basic dXNlcjpwYXNz''])]\<rparr>"
    by (simp add: BuildRequest_def basic_request_def provider_with_basic_def example_provider_def
        example_world_def is_set_def select_body_def merge_headers_def apply_headers_def
        set_basic_auth_def set_bearer_auth_def header_Set_def canonical_Authorization
        basicCredential_user_pass)
  have expected: "expected_authorization (basic_request provider_with_basic) = Some ''Basic dXNlcjpwYXNz''"
    by (simp add: expected_authorization_def basic_request_def provider_with_basic_def
        example_provider_def is_set_def provider_bearer_def basicCredential_user_pass)
  show ?thesis
    by (intro conjI) (rule built, rule expected,
        rule BuildRequest_authorization_precedence [OF built expected])
qed

text \<open>
  Claim C6, as stated, puts the request's Basic credential above the provider's Bearer
  token. For a request with the Basic credential \<^verbatim>\<open>user:pass\<close>, no Bearer token of its
  own and a provider Bearer token, the header is the provider's token.
\<close>

theorem BuildRequest_request_basic_loses_to_provider_bearer:
  "BuildRequest (example_world always_fails) (basic_request provider_with_bearer)
     = Inr \<lparr>req_Method = ''GET'', req_URL = ''https://example.test/ok'', req_Body = None,
            req_Header = [(''Authorization'', [''Bearer provider-token''])]\<rparr>
   \<and> basicCredential ''user'' ''pass'' = ''Basic dXNlcjpwYXNz''"
  by (simp add: BuildRequest_def basic_request_def provider_with_bearer_def example_provider_def
      example_world_def is_set_def select_body_def merge_headers_def apply_headers_def
      set_basic_auth_def set_bearer_auth_def header_Set_def canonical_Authorization
      basicCredential_user_pass)

subsection \<open>Redaction\<close>

lemma Contains_iff_sublist: "Contains s sub \<longleftrightarrow> sublist sub s"
  by (induction s) (auto simp: sublist_Cons_right)

text \<open>An occurrence of \<open>H\<close> cannot go across a character that \<open>H\<close> does not have.\<close>

lemma no_occurrence_across:
  assumes "c \<notin> set H" and "\<not> sublist H a" and "\<not> sublist H b"
  shows "\<not> sublist H (a @ c # b)"
proof
  assume "sublist H (a @ c # b)"
  then consider "sublist H a" | "sublist H (c # b)"
    | xs1 xs2 where "H = xs1 @ xs2" "suffix xs1 a" "prefix xs2 (c # b)"
    unfolding sublist_append by blast
  then show False
  proof cases
    case 1
    with assms show False by simp
  next
    case 2
    then have "prefix H (c # b)" using assms(3) by (simp add: sublist_Cons_right)
    moreover have "H \<noteq> []" using assms(2) by auto
    ultimately have "c \<in> set H" by (cases H) auto
    with assms show False by simp
  next
    case 3
    show False
    proof (cases xs2)
      case Nil
      with 3 have "sublist H a" by (simp add: suffix_imp_sublist)
      with assms show False by simp
    next
      case (Cons x xs)
      with 3 have "c \<in> set H" by auto
      with assms show False by simp
    qed
  qed
qed

lemma no_occurrence_across_marker:
  assumes "plain_name H" and "\<not> sublist H a" and "\<not> sublist H b"
  shows "\<not> sublist H (a @ REDACTED @ b)"
proof -
  have lb: "CHR ''['' \<notin> set H" and rb: "CHR '']'' \<notin> set H"
    using assms(1) by (simp_all add: plain_name_def)
  have inner: "\<not> sublist H ''REDACTED''"
    using assms(1) unfolding plain_name_def Contains_iff_sublist by blast
  have "\<not> sublist H (''REDACTED'' @ CHR '']'' # b)"
    by (rule no_occurrence_across [OF rb inner assms(3)])
  then have "\<not> sublist H (a @ CHR ''['' # (''REDACTED'' @ CHR '']'' # b))"
    by (rule no_occurrence_across [OF lb assms(2)])
  then show ?thesis by (simp add: REDACTED_def)
qed

lemma sublist_of_part:
  assumes "sublist H (take n s) \<or> sublist H (drop n s)"
  shows "sublist H s"
proof -
  have "sublist H (take n s @ drop n s)"
    using assms unfolding sublist_append by blast
  then show ?thesis by simp
qed

lemma occurrence_starts_inside:
  assumes "H \<noteq> []" and "sublist H a"
  shows "\<exists>i<length a. prefix H (drop i (a @ s))"
proof -
  from assms(2) obtain ps ss where a: "a = ps @ H @ ss" by (auto simp: sublist_def)
  have "length ps < length a" using assms(1) a by simp
  moreover have "prefix H (drop (length ps) (a @ s))" by (simp add: a)
  ultimately show ?thesis by blast
qed

text \<open>
  Replacing \<open>P\<close> by the marker in \<open>s\<close>, after a text \<open>a\<close> already written: when no
  occurrence of \<open>H\<close> starts in \<open>a\<close>, and \<open>P\<close> is \<open>H\<close> itself or \<open>s\<close> has no
  occurrence of \<open>H\<close>, the text written has no occurrence of \<open>H\<close>.
\<close>

lemma replace_nonempty_no_occurrence:
  assumes name: "plain_name H" and P: "P \<noteq> []"
    and "P = H \<or> \<not> sublist H s"
    and "\<forall>i<length a. \<not> prefix H (drop i (a @ s))"
  shows "\<not> sublist H (a @ replace_nonempty P REDACTED s)"
  using assms(3,4)
proof (induction s arbitrary: a rule: length_induct)
  case (1 s)
  have H: "H \<noteq> []" using name by (simp add: plain_name_def)
  have noa: "\<not> sublist H a"
    using occurrence_starts_inside [OF H, of a s] "1.prems"(2) by blast
  show ?case
  proof (cases "prefix P s")
    case True
    then obtain rest where s: "s = P @ rest" by (auto simp: prefix_def)
    have len: "length rest < length s" using P s by simp
    have cond: "P = H \<or> \<not> sublist H rest"
      using "1.prems"(1) s by (auto simp: sublist_append)
    have "\<not> sublist H ([] @ replace_nonempty P REDACTED rest)"
      by (rule "1.IH" [rule_format, OF len cond]) simp
    then have "\<not> sublist H (a @ REDACTED @ replace_nonempty P REDACTED rest)"
      using no_occurrence_across_marker [OF name noa, of "replace_nonempty P REDACTED rest"] by simp
    moreover have "replace_nonempty P REDACTED s = REDACTED @ replace_nonempty P REDACTED rest"
      using True P s by (subst replace_nonempty.simps) simp
    ultimately show ?thesis by simp
  next
    case False
    show ?thesis
    proof (cases s)
      case Nil
      then have "replace_nonempty P REDACTED s = []"
        by (subst replace_nonempty.simps) simp
      with noa show ?thesis by simp
    next
      case (Cons c cs)
      have step: "replace_nonempty P REDACTED s = c # replace_nonempty P REDACTED cs"
        using False P Cons by (subst replace_nonempty.simps) simp
      have len: "length cs < length s" using Cons by simp
      have cond: "P = H \<or> \<not> sublist H cs"
        using "1.prems"(1) Cons by (auto simp: sublist_Cons_right)
      have here: "\<not> prefix H s"
        using "1.prems"(1) False by (auto dest: prefix_imp_sublist)
      have inv: "\<forall>i<length (a @ [c]). \<not> prefix H (drop i ((a @ [c]) @ cs))"
      proof (intro allI impI)
        fix i assume "i < length (a @ [c])"
        then consider "i < length a" | "i = length a" by fastforce
        then show "\<not> prefix H (drop i ((a @ [c]) @ cs))"
        proof cases
          case 1
          then show ?thesis using "1.prems"(2) Cons by simp
        next
          case 2
          then show ?thesis using here Cons by simp
        qed
      qed
      have "\<not> sublist H ((a @ [c]) @ replace_nonempty P REDACTED cs)"
        by (rule "1.IH" [rule_format, OF len cond]) (use inv in blast)
      with step show ?thesis by simp
    qed
  qed
qed

lemma replace_empty_no_occurrence:
  assumes name: "plain_name H"
    and "\<not> sublist H a" and "\<not> sublist H s"
  shows "\<not> sublist H (a @ replace_empty REDACTED s)"
  using assms(2,3)
proof (induction s arbitrary: a rule: length_induct)
  case (1 s)
  have H: "H \<noteq> []" using name by (simp add: plain_name_def)
  show ?case
  proof (cases "s = []")
    case True
    then have "replace_empty REDACTED s = REDACTED @ []"
      by (subst replace_empty.simps) simp
    moreover have "\<not> sublist H (a @ REDACTED @ [])"
      using no_occurrence_across_marker [OF name "1.prems"(1), of "[]"] H by simp
    ultimately show ?thesis by simp
  next
    case False
    have w: "0 < rune_width s"
      by (auto simp: rune_width_def Let_def split: list.splits)
    have len: "length (drop (rune_width s) s) < length s" using False w by simp
    have head: "\<not> sublist H (take (rune_width s) s)"
      using "1.prems"(2) sublist_of_part [of H "rune_width s" s] by blast
    have tail: "\<not> sublist H (drop (rune_width s) s)"
      using "1.prems"(2) sublist_of_part [of H "rune_width s" s] by blast
    have "\<not> sublist H (take (rune_width s) s @ replace_empty REDACTED (drop (rune_width s) s))"
      by (rule "1.IH" [rule_format, OF len head tail])
    then have "\<not> sublist H (a @ REDACTED @ take (rune_width s) s
                 @ replace_empty REDACTED (drop (rune_width s) s))"
      by (rule no_occurrence_across_marker [OF name "1.prems"(1)])
    moreover have "replace_empty REDACTED s
        = REDACTED @ take (rune_width s) s @ replace_empty REDACTED (drop (rune_width s) s)"
      using False by (subst replace_empty.simps) simp
    ultimately show ?thesis by simp
  qed
qed

lemma ReplaceAll_own_name:
  assumes "plain_name H"
  shows "\<not> sublist H (ReplaceAll s H REDACTED)"
proof -
  have "H \<noteq> []" and "H \<noteq> REDACTED"
    using assms by (auto simp: plain_name_def REDACTED_def)
  moreover have "\<not> sublist H ([] @ replace_nonempty H REDACTED s)"
    using assms \<open>H \<noteq> []\<close> by (intro replace_nonempty_no_occurrence) simp_all
  ultimately show ?thesis by (simp add: ReplaceAll_def)
qed

lemma ReplaceAll_other_name:
  assumes "plain_name H" and "\<not> sublist H s"
  shows "\<not> sublist H (ReplaceAll s P REDACTED)"
proof -
  have H: "H \<noteq> []" using assms(1) by (simp add: plain_name_def)
  have "\<not> sublist H ([] @ replace_empty REDACTED s)"
    using assms H by (intro replace_empty_no_occurrence) simp_all
  moreover have "P \<noteq> [] \<Longrightarrow> \<not> sublist H ([] @ replace_nonempty P REDACTED s)"
    using assms by (intro replace_nonempty_no_occurrence) simp_all
  ultimately show ?thesis using assms(2) by (auto simp: ReplaceAll_def)
qed

lemma redact_step_own_name:
  assumes "plain_name H"
  shows "\<not> sublist H (redact_step s H)"
proof (cases "Contains (ToLower s) (ToLower H)")
  case True
  then show ?thesis using ReplaceAll_own_name [OF assms] by (simp add: redact_step_def)
next
  case False
  then have "\<not> sublist H s"
    unfolding Contains_iff_sublist ToLower_def using map_mono_sublist by blast
  with False show ?thesis by (simp add: redact_step_def)
qed

lemma redact_step_other_name:
  assumes "plain_name H" and "\<not> sublist H s"
  shows "\<not> sublist H (redact_step s P)"
  using ReplaceAll_other_name [OF assms] assms(2) by (simp add: redact_step_def)

lemma redact_rest_keeps_out:
  assumes "plain_name H" and "\<not> sublist H s"
  shows "\<not> sublist H (foldl redact_step s Ps)"
  using assms(2)
  by (induction Ps arbitrary: s) (simp_all add: redact_step_other_name [OF assms(1)])

lemma redact_list_removes_name:
  assumes "plain_name H" and "H \<in> set Ps"
  shows "\<not> sublist H (foldl redact_step s Ps)"
  using assms(2)
proof (induction Ps arbitrary: s)
  case Nil
  then show ?case by simp
next
  case (Cons P Ps)
  show ?case
  proof (cases "P = H")
    case True
    then show ?thesis
      using redact_rest_keeps_out [OF assms(1) redact_step_own_name [OF assms(1)]] by simp
  next
    case False
    with Cons show ?thesis by simp
  qed
qed

text \<open>
  Claim C7, as the code has it. The redaction pass replaces header names, not header
  values: for a name of the redact list that has no bracket and is no part of the word
  \<^verbatim>\<open>REDACTED\<close>, the redacted message does not contain the name, whatever the other
  entries of the list are.
\<close>

theorem RedactError_removes_header_names:
  assumes "H \<in> set redactList" and "plain_name H"
  shows "\<not> Contains (RedactError errMsg redactList) H"
  using redact_list_removes_name [OF assms(2,1)]
  by (simp add: RedactError_def Contains_iff_sublist)

theorem RedactError_removes_header_names_witness:
  "''Authorization'' \<in> set [''Authorization'', ''Proxy-Authorization'', ''X-Api-Key'']
   \<and> plain_name ''Authorization''
   \<and> \<not> Contains (RedactError ''error: Authorization: Bearer secret-token''
                    [''Authorization'', ''Proxy-Authorization'', ''X-Api-Key'']) ''Authorization''"
proof -
  have listed: "''Authorization'' \<in> set [''Authorization'', ''Proxy-Authorization'', ''X-Api-Key'']"
    by simp
  have name: "plain_name ''Authorization''"
    by (simp add: plain_name_def)
  show ?thesis
    by (intro conjI) (rule listed, rule name,
        rule RedactError_removes_header_names [OF listed name])
qed

text \<open>
  Claim C7, as stated, says that the value of a redacted header does not survive in the
  redacted message. For the message \<^verbatim>\<open>error: Authorization: Bearer secret-token\<close> and
  the redact list \<^verbatim>\<open>[Authorization]\<close> the value \<^verbatim>\<open>Bearer secret-token\<close> is in the
  message before and after the pass.
\<close>

theorem RedactError_keeps_header_value:
  "Contains ''error: Authorization: Bearer secret-token'' ''Bearer secret-token''
   \<and> RedactError ''error: Authorization: Bearer secret-token'' [''Authorization'']
       = ''error: [REDACTED]: Bearer secret-token''
   \<and> Contains (RedactError ''error: Authorization: Bearer secret-token'' [''Authorization''])
       ''Bearer secret-token''"
  by (simp add: RedactError_def redact_step_def ToLower_def lower_char_def upper_letters_def
      lower_letters_def ReplaceAll_def REDACTED_def replace_nonempty.simps)

subsection \<open>Interpolation\<close>

lemma isKeyChar_dollar: "\<not> isKeyChar CHR ''$''"
  by (simp add: isKeyChar_def)

lemma isKeyChar_brace: "\<not> isKeyChar CHR ''}''"
  by (simp add: isKeyChar_def)

lemma matchOutputs_Some:
  assumes "matchOutputs s = Some (key, rest)"
  shows "s = outputsTemplate key @ rest \<and> valid_key key"
proof -
  from assms have p: "prefix outputsOpen s"
    by (simp add: matchOutputs_def split: if_splits)
  define t where "t = drop (length outputsOpen) s"
  from p have s: "s = outputsOpen @ t"
    by (auto simp: t_def prefix_def)
  from assms p have key: "key = takeWhile isKeyChar t" and ne: "key \<noteq> []"
    and r: "dropWhile isKeyChar t = CHR ''}'' # rest"
    by (auto simp: matchOutputs_def Let_def t_def split: if_splits list.splits)
  have "t = key @ CHR ''}'' # rest"
    using takeWhile_dropWhile_id [of isKeyChar t] key r by simp
  moreover have "list_all isKeyChar key"
    unfolding key list_all_iff by (auto dest: set_takeWhileD)
  ultimately show ?thesis
    using s ne by (simp add: outputsTemplate_def valid_key_def)
qed

lemma matchOutputs_template:
  assumes "valid_key key"
  shows "matchOutputs (outputsTemplate key @ rest) = Some (key, rest)"
proof -
  have all: "\<forall>c\<in>set key. isKeyChar c" and ne: "key \<noteq> []"
    using assms by (simp_all add: valid_key_def list_all_iff)
  have tw: "takeWhile isKeyChar (key @ CHR ''}'' # rest) = key"
    using all isKeyChar_brace by (simp add: takeWhile_append2)
  have dw: "dropWhile isKeyChar (key @ CHR ''}'' # rest) = CHR ''}'' # rest"
    using all isKeyChar_brace by (simp add: dropWhile_append2)
  show ?thesis
    using tw dw ne by (simp add: matchOutputs_def outputsTemplate_def Let_def)
qed


lemma replaceOutputs_match:
  assumes "matchOutputs s = Some (key, rest)"
  shows "snd (replaceOutputs outs s) =
           (case map_of outs key of
              Some val \<Rightarrow> snd (replaceOutputs outs rest)
            | None \<Rightarrow> (case snd (replaceOutputs outs rest) of None \<Rightarrow> Some key | Some k \<Rightarrow> Some k))"
  using assms
  by (subst replaceOutputs.simps) (simp add: split_def split: option.splits)

lemma replaceOutputs_Nil: "replaceOutputs outs [] = ([], None)"
  by (subst replaceOutputs.simps) (simp add: matchOutputs_def outputsOpen_def)

lemma replaceOutputs_Cons:
  assumes "matchOutputs (c # cs) = None"
  shows "snd (replaceOutputs outs (c # cs)) = snd (replaceOutputs outs cs)"
  using assms by (subst replaceOutputs.simps) (simp add: split_def Let_def)

text \<open>The key that \<^verbatim>\<open>lastErr\<close> names is missing, and its template is in the text.\<close>

lemma replaceOutputs_error_key:
  assumes "snd (replaceOutputs outs s) = Some k"
  shows "map_of outs k = None \<and> sublist (outputsTemplate k) s"
  using assms
proof (induction outs s rule: replaceOutputs.induct)
  case (1 outs s)
  show ?case
  proof (cases "matchOutputs s")
    case None
    show ?thesis
    proof (cases s)
      case Nil
      with "1.prems" show ?thesis by (simp add: replaceOutputs_Nil)
    next
      case (Cons c cs)
      with None "1.prems" have "snd (replaceOutputs outs cs) = Some k"
        by (simp add: replaceOutputs_Cons)
      with "1.IH"(1) [OF None Cons] Cons show ?thesis
        by (simp add: sublist_Cons_right)
    qed
  next
    case (Some m)
    obtain key rest where m: "m = (key, rest)" by (cases m)
    from Some m have s: "s = outputsTemplate key @ rest"
      using matchOutputs_Some by blast
    note IH = "1.IH"(2) [OF Some m [symmetric]]
    from "1.prems" Some m
    consider "snd (replaceOutputs outs rest) = Some k"
      | "map_of outs key = None" "k = key"
      by (auto simp: replaceOutputs_match split: option.splits)
    then show ?thesis
    proof cases
      case 1
      with IH s show ?thesis by (auto simp: sublist_append)
    next
      case 2
      with s show ?thesis by simp
    qed
  qed
qed

lemma sublist_past_prefix:
  assumes "x \<notin> set m" and "sublist (x # t) (m @ rest)"
  shows "sublist (x # t) rest"
  using assms
proof (induction m)
  case Nil
  then show ?case by simp
next
  case (Cons a m)
  from Cons.prems have "\<not> prefix (x # t) ((a # m) @ rest)" by auto
  with Cons.prems have "sublist (x # t) (m @ rest)"
    by (simp add: sublist_Cons_right)
  with Cons show ?case by simp
qed

lemma template_shape:
  assumes "valid_key key"
  shows "\<exists>t. outputsTemplate key = CHR ''$'' # t \<and> CHR ''$'' \<notin> set t"
proof -
  have "\<forall>c\<in>set key. isKeyChar c" using assms by (simp add: valid_key_def list_all_iff)
  then have "CHR ''$'' \<notin> set key" using isKeyChar_dollar by blast
  then show ?thesis by (simp add: outputsTemplate_def outputsOpen_def)
qed

text \<open>A template of a missing key anywhere in the text sets \<^verbatim>\<open>lastErr\<close>.\<close>

lemma replaceOutputs_missing:
  assumes key: "valid_key KEY"
    and "map_of outs KEY = None"
    and "sublist (outputsTemplate KEY) s"
  shows "snd (replaceOutputs outs s) \<noteq> None"
  using assms(2,3)
proof (induction outs s rule: replaceOutputs.induct)
  case (1 outs s)
  have here: "matchOutputs s = Some (KEY, drop (length (outputsTemplate KEY)) s)"
    if "prefix (outputsTemplate KEY) s"
    using that matchOutputs_template [OF key] by (auto simp: prefix_def)
  show ?case
  proof (cases "matchOutputs s")
    case None
    then have np: "\<not> prefix (outputsTemplate KEY) s" using here by auto
    show ?thesis
    proof (cases s)
      case Nil
      with "1.prems" show ?thesis by (simp add: outputsTemplate_def)
    next
      case (Cons c cs)
      with np "1.prems" have "sublist (outputsTemplate KEY) cs"
        by (simp add: sublist_Cons_right)
      with "1.IH"(1) [OF None Cons] "1.prems"(1) None Cons show ?thesis
        by (simp add: replaceOutputs_Cons)
    qed
  next
    case (Some m)
    obtain key' rest where m: "m = (key', rest)" by (cases m)
    from Some m have s: "s = outputsTemplate key' @ rest" and vk: "valid_key key'"
      using matchOutputs_Some by blast+
    note IH = "1.IH"(2) [OF Some m [symmetric] "1.prems"(1)]
    show ?thesis
    proof (cases "map_of outs key'")
      case None
      with Some m show ?thesis by (simp add: replaceOutputs_match split: option.splits)
    next
      case present: (Some val)
      have np: "\<not> prefix (outputsTemplate KEY) s"
      proof
        assume "prefix (outputsTemplate KEY) s"
        from here [OF this] Some m have "key' = KEY" by simp
        with present "1.prems"(1) show False by simp
      qed
      obtain t where t: "outputsTemplate KEY = CHR ''$'' # t"
        using template_shape [OF key] by blast
      obtain t' where t': "outputsTemplate key' = CHR ''$'' # t'" "CHR ''$'' \<notin> set t'"
        using template_shape [OF vk] by blast
      have "sublist (CHR ''$'' # t) (t' @ rest)"
        using "1.prems"(2) np by (simp add: s t t' sublist_Cons_right)
      then have "sublist (outputsTemplate KEY) rest"
        unfolding t by (rule sublist_past_prefix [OF t'(2)])
      with IH have "snd (replaceOutputs outs rest) \<noteq> None" by simp
      with Some m present show ?thesis by (simp add: replaceOutputs_match)
    qed
  qed
qed

text \<open>
  \<^verbatim>\<open>InterpolateString\<close>: a failure names a missing key whose template is in the text; a
  success means that no template of a missing key is in the text.
\<close>

lemma InterpolateString_Inl:
  assumes "InterpolateString text' c = Inl e"
  shows "\<exists>k. e = OutputKeyNotFound k \<and> map_of (ctx_Outputs c) k = None
           \<and> Contains text' (outputsTemplate k)"
proof -
  from assms obtain k where "snd (replaceOutputs (ctx_Outputs c) text') = Some k"
    and "e = OutputKeyNotFound k"
    by (auto simp: InterpolateString_def split_def Let_def split: if_splits option.splits)
  with replaceOutputs_error_key [of "ctx_Outputs c" text' k] show ?thesis
    by (auto simp: Contains_iff_sublist)
qed

lemma InterpolateString_Inr:
  assumes "InterpolateString text' c = Inr r"
    and "valid_key KEY" and "map_of (ctx_Outputs c) KEY = None"
  shows "\<not> Contains text' (outputsTemplate KEY)"
proof
  assume "Contains text' (outputsTemplate KEY)"
  then have sub: "sublist (outputsTemplate KEY) text'" by (simp add: Contains_iff_sublist)
  then have "text' \<noteq> []" by (auto simp: outputsTemplate_def)
  moreover have "snd (replaceOutputs (ctx_Outputs c) text') \<noteq> None"
    by (rule replaceOutputs_missing [OF assms(2,3) sub])
  ultimately show False
    using assms(1) by (auto simp: InterpolateString_def split_def Let_def split: option.splits)
qed


lemma interpolate_entries_Inl:
  assumes "interpolate_entries m c acc = Inl e"
  shows "\<exists>k val. val \<in> snd ` set m \<and> missing_key_of e = Some k
           \<and> map_of (ctx_Outputs c) k = None \<and> Contains val (outputsTemplate k)"
  using assms
proof (induction m arbitrary: acc)
  case Nil
  then show ?case by simp
next
  case (Cons entry m)
  obtain key val where entry: "entry = (key, val)" by (cases entry)
  show ?case
  proof (cases "InterpolateString val c")
    case (Inl err)
    with Cons.prems entry have e: "e = InterpolateMapFailed key err" by simp
    from InterpolateString_Inl [OF Inl] obtain k where
      "err = OutputKeyNotFound k" "map_of (ctx_Outputs c) k = None"
      "Contains val (outputsTemplate k)" by blast
    with e entry show ?thesis
      by (intro exI [of _ k] exI [of _ val]) simp
  next
    case (Inr expanded)
    with Cons.prems entry
    have "interpolate_entries m c (map_set acc key expanded) = Inl e" by simp
    from Cons.IH [OF this] obtain k v where
      "v \<in> snd ` set m" "missing_key_of e = Some k" "map_of (ctx_Outputs c) k = None"
      "Contains v (outputsTemplate k)" by blast
    then show ?thesis
      by (intro exI [of _ k] exI [of _ v]) simp
  qed
qed

lemma interpolate_entries_Inr:
  assumes "interpolate_entries m c acc = Inr r"
    and "valid_key KEY" and "map_of (ctx_Outputs c) KEY = None"
    and "val \<in> snd ` set m"
  shows "\<not> Contains val (outputsTemplate KEY)"
  using assms(1,4)
proof (induction m arbitrary: acc)
  case Nil
  then show ?case by simp
next
  case (Cons entry m)
  obtain key v where entry: "entry = (key, v)" by (cases entry)
  from Cons.prems(1) entry obtain expanded where ok: "InterpolateString v c = Inr expanded"
    and rest: "interpolate_entries m c (map_set acc key expanded) = Inr r"
    by (auto split: sum.splits)
  from Cons.prems(2) entry consider "val = v" | "val \<in> snd ` set m" by auto
  then show ?case
  proof cases
    case 1
    with InterpolateString_Inr [OF ok assms(2,3)] show ?thesis by simp
  next
    case 2
    with Cons.IH [OF rest] show ?thesis by simp
  qed
qed

lemma InterpolateMap_Inl:
  assumes "InterpolateMap m c = Inl e"
  shows "\<exists>k val. val \<in> snd ` set m \<and> missing_key_of e = Some k
           \<and> map_of (ctx_Outputs c) k = None \<and> Contains val (outputsTemplate k)"
  using assms interpolate_entries_Inl [of m c "[]" e]
  by (simp add: InterpolateMap_def split: if_splits)

lemma InterpolateMap_Inr:
  assumes "InterpolateMap m c = Inr r"
    and "valid_key KEY" and "map_of (ctx_Outputs c) KEY = None"
    and "val \<in> snd ` set m"
  shows "\<not> Contains val (outputsTemplate KEY)"
proof (cases "m = []")
  case True
  with assms(4) show ?thesis by simp
next
  case False
  with assms(1) have "interpolate_entries m c [] = Inr r"
    by (simp add: InterpolateMap_def)
  from interpolate_entries_Inr [OF this assms(2,3,4)] show ?thesis .
qed

lemma interpolate_blocks_Inl:
  assumes "interpolate_blocks bs c acc = Inl e"
  shows "\<exists>k b. b \<in> set bs \<and> missing_key_of e = Some k
           \<and> map_of (ctx_Outputs c) k = None
           \<and> Contains (ValueString (hb_Value b)) (outputsTemplate k)"
  using assms
proof (induction bs arbitrary: acc)
  case Nil
  then show ?case by simp
next
  case (Cons block bs)
  show ?case
  proof (cases "InterpolateString (ValueString (hb_Value block)) c")
    case (Inl err)
    with Cons.prems have e: "e = InterpolateHeaderFailed (ValueString (hb_Name block)) err"
      by simp
    from InterpolateString_Inl [OF Inl] obtain k where
      "err = OutputKeyNotFound k" "map_of (ctx_Outputs c) k = None"
      "Contains (ValueString (hb_Value block)) (outputsTemplate k)" by blast
    with e show ?thesis
      by (intro exI [of _ k] exI [of _ block]) simp
  next
    case (Inr expanded)
    with Cons.prems obtain acc' where "interpolate_blocks bs c acc' = Inl e" by simp
    from Cons.IH [OF this] obtain k b where
      "b \<in> set bs" "missing_key_of e = Some k" "map_of (ctx_Outputs c) k = None"
      "Contains (ValueString (hb_Value b)) (outputsTemplate k)" by blast
    then show ?thesis
      by (intro exI [of _ k] exI [of _ b]) simp
  qed
qed

lemma interpolate_blocks_Inr:
  assumes "interpolate_blocks bs c acc = Inr r"
    and "valid_key KEY" and "map_of (ctx_Outputs c) KEY = None"
    and "b \<in> set bs"
  shows "\<not> Contains (ValueString (hb_Value b)) (outputsTemplate KEY)"
  using assms(1,4)
proof (induction bs arbitrary: acc)
  case Nil
  then show ?case by simp
next
  case (Cons block bs)
  from Cons.prems(1) obtain expanded acc' where
    ok: "InterpolateString (ValueString (hb_Value block)) c = Inr expanded"
    and rest: "interpolate_blocks bs c acc' = Inr r"
    by (auto split: sum.splits)
  from Cons.prems(2) consider "b = block" | "b \<in> set bs" by auto
  then show ?case
  proof cases
    case 1
    with InterpolateString_Inr [OF ok assms(2,3)] show ?thesis by simp
  next
    case 2
    with Cons.IH [OF rest] show ?thesis by simp
  qed
qed

lemma InterpolateHeaderBlocks_Inl:
  assumes "InterpolateHeaderBlocks bs c = Inl e"
  shows "\<exists>k b. b \<in> set bs \<and> missing_key_of e = Some k
           \<and> map_of (ctx_Outputs c) k = None
           \<and> Contains (ValueString (hb_Value b)) (outputsTemplate k)"
  using assms interpolate_blocks_Inl [of bs c "[]" e]
  by (simp add: InterpolateHeaderBlocks_def split: if_splits)

lemma InterpolateHeaderBlocks_Inr:
  assumes "InterpolateHeaderBlocks bs c = Inr r"
    and "valid_key KEY" and "map_of (ctx_Outputs c) KEY = None"
    and "b \<in> set bs"
  shows "\<not> Contains (ValueString (hb_Value b)) (outputsTemplate KEY)"
proof (cases "bs = []")
  case True
  with assms(4) show ?thesis by simp
next
  case False
  with assms(1) have "interpolate_blocks bs c [] = Inr r"
    by (simp add: InterpolateHeaderBlocks_def)
  from interpolate_blocks_Inr [OF this assms(2,3,4)] show ?thesis .
qed

subsection \<open>The destroy operation\<close>

lemma mentions_iff:
  "mentions k dc \<longleftrightarrow>
     Contains (ValueString (dm_Url dc)) (outputsTemplate k)
     \<or> (\<exists>val \<in> snd ` set (ConvertTerraformMap (dm_Headers dc)). Contains val (outputsTemplate k))
     \<or> (\<exists>b \<in> set (dm_HeaderBlocks dc). Contains (ValueString (hb_Value b)) (outputsTemplate k))
     \<or> (\<exists>val \<in> snd ` set (ConvertTerraformMap (dm_Query dc)). Contains val (outputsTemplate k))
     \<or> Contains (ValueString (dm_Body dc)) (outputsTemplate k)
     \<or> Contains (ValueString (dm_BodyJson dc)) (outputsTemplate k)"
  by (auto simp: mentions_def template_fields_def list_ex_iff)

lemma no_template_in_empty: "outputsTemplate k \<noteq> []"
  by (simp add: outputsTemplate_def)

text \<open>
  Each step of the expansion: a failure reports a missing key that the step's field
  refers to; a success means that the field refers to no missing key, and leaves the
  fields of the later steps as they are.
\<close>

lemma expand_url_Inl:
  assumes "expand_url c dc = Inl f"
  shows "\<exists>k. missing_key f = Some k \<and> map_of (ctx_Outputs c) k = None
           \<and> Contains (ValueString (dm_Url dc)) (outputsTemplate k)"
proof -
  from assms obtain err where "InterpolateString (ValueString (dm_Url dc)) c = Inl err"
    and "f = InterpolateURLFailed err"
    by (auto simp: expand_url_def split: if_splits sum.splits)
  with InterpolateString_Inl [of "ValueString (dm_Url dc)" c err] show ?thesis by auto
qed

lemma expand_url_Inr:
  assumes "expand_url c dc = Inr dc'"
  shows "(valid_key KEY \<and> map_of (ctx_Outputs c) KEY = None
            \<longrightarrow> \<not> Contains (ValueString (dm_Url dc)) (outputsTemplate KEY))
         \<and> dm_Headers dc' = dm_Headers dc \<and> dm_HeaderBlocks dc' = dm_HeaderBlocks dc
         \<and> dm_Query dc' = dm_Query dc \<and> dm_Body dc' = dm_Body dc
         \<and> dm_BodyJson dc' = dm_BodyJson dc"
proof (cases "IsNull (dm_Url dc)")
  case True
  then have "ValueString (dm_Url dc) = []" by (cases "dm_Url dc") simp_all
  with True assms show ?thesis by (auto simp: expand_url_def no_template_in_empty)
next
  case False
  with assms obtain r where ok: "InterpolateString (ValueString (dm_Url dc)) c = Inr r"
    and dc': "dc' = dc\<lparr>dm_Url := StringValue r\<rparr>"
    by (auto simp: expand_url_def split: sum.splits)
  from InterpolateString_Inr [OF ok] dc' show ?thesis by simp
qed

lemma expand_body_Inl:
  assumes "expand_body c dc = Inl f"
  shows "\<exists>k. missing_key f = Some k \<and> map_of (ctx_Outputs c) k = None
           \<and> Contains (ValueString (dm_Body dc)) (outputsTemplate k)"
proof -
  from assms obtain err where "InterpolateString (ValueString (dm_Body dc)) c = Inl err"
    and "f = InterpolateBodyFailed err"
    by (auto simp: expand_body_def split: if_splits sum.splits)
  with InterpolateString_Inl [of "ValueString (dm_Body dc)" c err] show ?thesis by auto
qed

lemma expand_body_Inr:
  assumes "expand_body c dc = Inr dc'"
  shows "(valid_key KEY \<and> map_of (ctx_Outputs c) KEY = None
            \<longrightarrow> \<not> Contains (ValueString (dm_Body dc)) (outputsTemplate KEY))
         \<and> dm_BodyJson dc' = dm_BodyJson dc"
proof (cases "IsNull (dm_Body dc)")
  case True
  then have "ValueString (dm_Body dc) = []" by (cases "dm_Body dc") simp_all
  with True assms show ?thesis by (auto simp: expand_body_def no_template_in_empty)
next
  case False
  with assms obtain r where ok: "InterpolateString (ValueString (dm_Body dc)) c = Inr r"
    and dc': "dc' = dc\<lparr>dm_Body := StringValue r\<rparr>"
    by (auto simp: expand_body_def split: sum.splits)
  from InterpolateString_Inr [OF ok] dc' show ?thesis by simp
qed

lemma expand_body_json_Inl:
  assumes "expand_body_json c dc = Inl f"
  shows "\<exists>k. missing_key f = Some k \<and> map_of (ctx_Outputs c) k = None
           \<and> Contains (ValueString (dm_BodyJson dc)) (outputsTemplate k)"
proof -
  from assms obtain err where "InterpolateString (ValueString (dm_BodyJson dc)) c = Inl err"
    and "f = InterpolateBodyJsonFailed err"
    by (auto simp: expand_body_json_def split: if_splits sum.splits)
  with InterpolateString_Inl [of "ValueString (dm_BodyJson dc)" c err] show ?thesis by auto
qed

lemma expand_body_json_Inr:
  assumes "expand_body_json c dc = Inr dc'"
  shows "valid_key KEY \<and> map_of (ctx_Outputs c) KEY = None
            \<longrightarrow> \<not> Contains (ValueString (dm_BodyJson dc)) (outputsTemplate KEY)"
proof (cases "IsNull (dm_BodyJson dc)")
  case True
  then have "ValueString (dm_BodyJson dc) = []" by (cases "dm_BodyJson dc") simp_all
  with True assms show ?thesis by (auto simp: expand_body_json_def no_template_in_empty)
next
  case False
  with assms obtain r where ok: "InterpolateString (ValueString (dm_BodyJson dc)) c = Inr r"
    by (auto simp: expand_body_json_def split: sum.splits)
  from InterpolateString_Inr [OF ok] show ?thesis by simp
qed

lemma ConvertTerraformMap_MapNull: "ConvertTerraformMap MapNull = []"
  by simp

lemma expand_headers_Inl:
  assumes "expand_headers c dc = Inl f"
  shows "\<exists>k. missing_key f = Some k \<and> map_of (ctx_Outputs c) k = None
           \<and> (\<exists>val \<in> snd ` set (ConvertTerraformMap (dm_Headers dc)).
                 Contains val (outputsTemplate k))"
proof -
  from assms obtain err where "InterpolateMap (ConvertTerraformMap (dm_Headers dc)) c = Inl err"
    and "f = InterpolateHeadersFailed err"
    by (auto simp: expand_headers_def split: if_splits sum.splits)
  with InterpolateMap_Inl [of "ConvertTerraformMap (dm_Headers dc)" c err] show ?thesis
    by auto
qed

lemma expand_headers_Inr:
  assumes "expand_headers c dc = Inr dc'"
  shows "(valid_key KEY \<and> map_of (ctx_Outputs c) KEY = None
            \<longrightarrow> (\<forall>val \<in> snd ` set (ConvertTerraformMap (dm_Headers dc)).
                   \<not> Contains val (outputsTemplate KEY)))
         \<and> dm_HeaderBlocks dc' = dm_HeaderBlocks dc
         \<and> dm_Query dc' = dm_Query dc \<and> dm_Body dc' = dm_Body dc
         \<and> dm_BodyJson dc' = dm_BodyJson dc"
proof (cases "dm_Headers dc = MapNull")
  case True
  with assms show ?thesis by (auto simp: expand_headers_def)
next
  case False
  with assms obtain r where ok: "InterpolateMap (ConvertTerraformMap (dm_Headers dc)) c = Inr r"
    and dc': "dc' = dc\<lparr>dm_Headers := to_tf_map r\<rparr>"
    by (auto simp: expand_headers_def split: sum.splits)
  from InterpolateMap_Inr [OF ok] dc' show ?thesis by simp
qed

lemma expand_query_Inl:
  assumes "expand_query c dc = Inl f"
  shows "\<exists>k. missing_key f = Some k \<and> map_of (ctx_Outputs c) k = None
           \<and> (\<exists>val \<in> snd ` set (ConvertTerraformMap (dm_Query dc)).
                 Contains val (outputsTemplate k))"
proof -
  from assms obtain err where "InterpolateMap (ConvertTerraformMap (dm_Query dc)) c = Inl err"
    and "f = InterpolateQueryFailed err"
    by (auto simp: expand_query_def split: if_splits sum.splits)
  with InterpolateMap_Inl [of "ConvertTerraformMap (dm_Query dc)" c err] show ?thesis
    by auto
qed

lemma expand_query_Inr:
  assumes "expand_query c dc = Inr dc'"
  shows "(valid_key KEY \<and> map_of (ctx_Outputs c) KEY = None
            \<longrightarrow> (\<forall>val \<in> snd ` set (ConvertTerraformMap (dm_Query dc)).
                   \<not> Contains val (outputsTemplate KEY)))
         \<and> dm_Body dc' = dm_Body dc \<and> dm_BodyJson dc' = dm_BodyJson dc"
proof (cases "dm_Query dc = MapNull")
  case True
  with assms show ?thesis by (auto simp: expand_query_def)
next
  case False
  with assms obtain r where ok: "InterpolateMap (ConvertTerraformMap (dm_Query dc)) c = Inr r"
    and dc': "dc' = dc\<lparr>dm_Query := to_tf_map r\<rparr>"
    by (auto simp: expand_query_def split: sum.splits)
  from InterpolateMap_Inr [OF ok] dc' show ?thesis by simp
qed

lemma expand_blocks_Inl:
  assumes "expand_blocks c dc = Inl f"
  shows "\<exists>k. missing_key f = Some k \<and> map_of (ctx_Outputs c) k = None
           \<and> (\<exists>b \<in> set (dm_HeaderBlocks dc).
                 Contains (ValueString (hb_Value b)) (outputsTemplate k))"
proof -
  from assms obtain err where "InterpolateHeaderBlocks (dm_HeaderBlocks dc) c = Inl err"
    and "f = InterpolateHeadersFailed err"
    by (auto simp: expand_blocks_def split: if_splits sum.splits)
  with InterpolateHeaderBlocks_Inl [of "dm_HeaderBlocks dc" c err] show ?thesis
    by auto
qed

lemma expand_blocks_Inr:
  assumes "expand_blocks c dc = Inr dc'"
  shows "(valid_key KEY \<and> map_of (ctx_Outputs c) KEY = None
            \<longrightarrow> (\<forall>b \<in> set (dm_HeaderBlocks dc).
                   \<not> Contains (ValueString (hb_Value b)) (outputsTemplate KEY)))
         \<and> dm_Query dc' = dm_Query dc \<and> dm_Body dc' = dm_Body dc
         \<and> dm_BodyJson dc' = dm_BodyJson dc"
proof (cases "dm_HeaderBlocks dc = []")
  case True
  with assms show ?thesis by (auto simp: expand_blocks_def)
next
  case False
  with assms obtain r where ok: "InterpolateHeaderBlocks (dm_HeaderBlocks dc) c = Inr r"
    and dc': "dc' = dc\<lparr>dm_HeaderBlocks := r\<rparr>"
    by (auto simp: expand_blocks_def split: sum.splits)
  from InterpolateHeaderBlocks_Inr [OF ok] dc' show ?thesis by simp
qed


lemma expand_destroy_Inr:
  assumes "expand_destroy c dc = Inr dc'"
    and key: "valid_key KEY" "map_of (ctx_Outputs c) KEY = None"
  shows "\<not> mentions KEY dc"
proof -
  from assms(1) obtain dc1 dc2 dc3 dc4 dc5 where
    s1: "expand_url c dc = Inr dc1" and s2: "expand_headers c dc1 = Inr dc2"
    and s3: "expand_blocks c dc2 = Inr dc3" and s4: "expand_query c dc3 = Inr dc4"
    and s5: "expand_body c dc4 = Inr dc5" and s6: "expand_body_json c dc5 = Inr dc'"
    by (auto simp: expand_destroy_def and_then_def split: sum.splits)
  note f1 = expand_url_Inr [OF s1, of KEY] and f2 = expand_headers_Inr [OF s2, of KEY]
    and f3 = expand_blocks_Inr [OF s3, of KEY] and f4 = expand_query_Inr [OF s4, of KEY]
    and f5 = expand_body_Inr [OF s5, of KEY] and f6 = expand_body_json_Inr [OF s6, of KEY]
  have "\<not> Contains (ValueString (dm_Url dc)) (outputsTemplate KEY)"
    using f1 key by simp
  moreover have "\<forall>val \<in> snd ` set (ConvertTerraformMap (dm_Headers dc)).
      \<not> Contains val (outputsTemplate KEY)"
    using f1 f2 key by simp
  moreover have "\<forall>b \<in> set (dm_HeaderBlocks dc).
      \<not> Contains (ValueString (hb_Value b)) (outputsTemplate KEY)"
    using f1 f2 f3 key by simp
  moreover have "\<forall>val \<in> snd ` set (ConvertTerraformMap (dm_Query dc)).
      \<not> Contains val (outputsTemplate KEY)"
    using f1 f2 f3 f4 key by simp
  moreover have "\<not> Contains (ValueString (dm_Body dc)) (outputsTemplate KEY)"
    using f1 f2 f3 f4 f5 key by simp
  moreover have "\<not> Contains (ValueString (dm_BodyJson dc)) (outputsTemplate KEY)"
    using f1 f2 f3 f4 f5 f6 key by simp
  ultimately show ?thesis unfolding mentions_iff by blast
qed

lemma expand_destroy_Inl:
  assumes "expand_destroy c dc = Inl f"
  shows "\<exists>k. missing_key f = Some k \<and> map_of (ctx_Outputs c) k = None \<and> mentions k dc"
proof (cases "expand_url c dc")
  case (Inl f1)
  with assms have "f = f1" by (simp add: expand_destroy_def and_then_def)
  with expand_url_Inl [OF Inl] show ?thesis unfolding mentions_iff by blast
next
  case s1: (Inr dc1)
  note f1 = expand_url_Inr [OF s1, of undefined]
  show ?thesis
  proof (cases "expand_headers c dc1")
    case (Inl f2)
    with assms s1 have "f = f2" by (simp add: expand_destroy_def and_then_def)
    with expand_headers_Inl [OF Inl] f1 show ?thesis unfolding mentions_iff by auto
  next
    case s2: (Inr dc2)
    note f2 = expand_headers_Inr [OF s2, of undefined]
    show ?thesis
    proof (cases "expand_blocks c dc2")
      case (Inl f3)
      with assms s1 s2 have "f = f3" by (simp add: expand_destroy_def and_then_def)
      with expand_blocks_Inl [OF Inl] f1 f2 show ?thesis unfolding mentions_iff by auto
    next
      case s3: (Inr dc3)
      note f3 = expand_blocks_Inr [OF s3, of undefined]
      show ?thesis
      proof (cases "expand_query c dc3")
        case (Inl f4)
        with assms s1 s2 s3 have "f = f4" by (simp add: expand_destroy_def and_then_def)
        with expand_query_Inl [OF Inl] f1 f2 f3 show ?thesis unfolding mentions_iff by auto
      next
        case s4: (Inr dc4)
        note f4 = expand_query_Inr [OF s4, of undefined]
        show ?thesis
        proof (cases "expand_body c dc4")
          case (Inl f5)
          with assms s1 s2 s3 s4 have "f = f5" by (simp add: expand_destroy_def and_then_def)
          with expand_body_Inl [OF Inl] f1 f2 f3 f4 show ?thesis unfolding mentions_iff by auto
        next
          case s5: (Inr dc5)
          note f5 = expand_body_Inr [OF s5, of undefined]
          from assms s1 s2 s3 s4 s5 have "expand_body_json c dc5 = Inl f"
            by (simp add: expand_destroy_def and_then_def)
          from expand_body_json_Inl [OF this] f1 f2 f3 f4 f5 show ?thesis
            unfolding mentions_iff by auto
        qed
      qed
    qed
  qed
qed

text \<open>
  Claim C4, as the code has it. When a field of the destroy specification that
  \<^verbatim>\<open>Delete\<close> interpolates contains \<^verbatim>\<open>${self.outputs.KEY}\<close> and the outputs of the stored
  state have no \<^verbatim>\<open>KEY\<close>, \<^verbatim>\<open>Delete\<close> fails before any request is sent, the state is
  kept as it was, and the error names a key that the outputs do not have and that the
  specification refers to. It is the last such key of the first field that has one,
  which need not be \<^verbatim>\<open>KEY\<close>.
\<close>

theorem Delete_missing_output_key:
  assumes "m_OnDestroy model = Some dc"
    and "m_Outputs model \<noteq> MapUnknown"
    and "valid_key KEY"
    and "map_of (ConvertTerraformMap (m_Outputs model)) KEY = None"
    and "mentions KEY dc"
  shows "\<exists>f k. Delete w config model = \<lparr>del_error = Some f, del_calls = 0, del_state = Some model\<rparr>
           \<and> missing_key f = Some k
           \<and> map_of (ConvertTerraformMap (m_Outputs model)) k = None
           \<and> mentions k dc"
proof -
  from assms(2) obtain c where c: "BuildInterpolationContextFromState model = Inr c"
    and outs: "ctx_Outputs c = ConvertTerraformMap (m_Outputs model)"
    by (cases "m_Outputs model") (simp_all add: BuildInterpolationContextFromState_def)
  have "\<exists>f. expand_destroy c dc = Inl f"
  proof (cases "expand_destroy c dc")
    case (Inl f)
    then show ?thesis by blast
  next
    case (Inr dc')
    from expand_destroy_Inr [OF Inr assms(3)] assms(4,5) outs show ?thesis by simp
  qed
  then obtain f where f: "expand_destroy c dc = Inl f" by blast
  from expand_destroy_Inl [OF f] outs obtain k where
    "missing_key f = Some k" "map_of (ConvertTerraformMap (m_Outputs model)) k = None"
    "mentions k dc" by auto
  moreover have "Delete w config model = \<lparr>del_error = Some f, del_calls = 0, del_state = Some model\<rparr>"
    using assms(1) c f by (simp add: Delete_def failed_def)
  ultimately show ?thesis by blast
qed

lemma one_missing_url_mentions: "mentions ''user_id'' (plain_destroy one_missing_url)"
  by (simp add: mentions_def template_fields_def plain_destroy_def one_missing_url_def
      outputsTemplate_def outputsOpen_def)

theorem Delete_missing_output_key_witness:
  "m_OnDestroy (state_without_outputs one_missing_url) = Some (plain_destroy one_missing_url)
   \<and> m_Outputs (state_without_outputs one_missing_url) \<noteq> MapUnknown
   \<and> valid_key ''user_id''
   \<and> map_of (ConvertTerraformMap (m_Outputs (state_without_outputs one_missing_url))) ''user_id'' = None
   \<and> mentions ''user_id'' (plain_destroy one_missing_url)
   \<and> (\<exists>f k. Delete (example_world always_fails) (example_provider 1048576)
               (state_without_outputs one_missing_url)
             = \<lparr>del_error = Some f, del_calls = 0,
                del_state = Some (state_without_outputs one_missing_url)\<rparr>
           \<and> missing_key f = Some k
           \<and> map_of (ConvertTerraformMap (m_Outputs (state_without_outputs one_missing_url))) k = None
           \<and> mentions k (plain_destroy one_missing_url))"
proof -
  have h1: "m_OnDestroy (state_without_outputs one_missing_url) = Some (plain_destroy one_missing_url)"
    by (simp add: state_without_outputs_def)
  have h2: "m_Outputs (state_without_outputs one_missing_url) \<noteq> MapUnknown"
    by (simp add: state_without_outputs_def)
  have h3: "valid_key ''user_id''"
    by (simp add: valid_key_def isKeyChar_def)
  have h4: "map_of (ConvertTerraformMap (m_Outputs (state_without_outputs one_missing_url))) ''user_id'' = None"
    by (simp add: state_without_outputs_def)
  note h5 = one_missing_url_mentions
  show ?thesis
    by (intro conjI) (rule h1, rule h2, rule h3, rule h4, rule h5,
        rule Delete_missing_output_key [OF h1 h2 h3 h4 h5])
qed


lemma two_missing_url_error:
  "InterpolateString two_missing_url
     \<lparr>ctx_ID = ''res-123'', ctx_Outputs = [], ctx_ResponseBody = [], ctx_StatusCode = 200\<rparr>
   = Inl (OutputKeyNotFound ''b'')"
  by (simp add: InterpolateString_def two_missing_url_def replaceOutputs.simps matchOutputs_def
      outputsOpen_def outputsTemplate_def isKeyChar_def Let_def)

text \<open>
  Claim C4, as stated, says that the error names \<^verbatim>\<open>KEY\<close>. For the destroy URL
  \<^verbatim>\<open>https://api.example.com/${self.outputs.a}/${self.outputs.b}\<close> and a state with no
  outputs, the key \<^verbatim>\<open>a\<close> is missing and referred to, and \<^verbatim>\<open>Delete\<close> fails with the
  error for the key \<^verbatim>\<open>b\<close>: \<^verbatim>\<open>InterpolateString\<close> keeps the last missing key of the
  text.
\<close>

theorem Delete_reports_last_missing_key:
  "valid_key ''a''
   \<and> map_of (ConvertTerraformMap (m_Outputs (state_without_outputs two_missing_url))) ''a'' = None
   \<and> mentions ''a'' (plain_destroy two_missing_url)
   \<and> Delete (example_world always_fails) (example_provider 1048576)
        (state_without_outputs two_missing_url)
      = \<lparr>del_error = Some (InterpolateURLFailed (OutputKeyNotFound ''b'')), del_calls = 0,
         del_state = Some (state_without_outputs two_missing_url)\<rparr>"
proof -
  have "valid_key ''a''" by (simp add: valid_key_def isKeyChar_def)
  moreover have "mentions ''a'' (plain_destroy two_missing_url)"
    by (simp add: mentions_def template_fields_def plain_destroy_def two_missing_url_def
        outputsTemplate_def outputsOpen_def)
  moreover have "Delete (example_world always_fails) (example_provider 1048576)
        (state_without_outputs two_missing_url)
      = \<lparr>del_error = Some (InterpolateURLFailed (OutputKeyNotFound ''b'')), del_calls = 0,
         del_state = Some (state_without_outputs two_missing_url)\<rparr>"
    using two_missing_url_error
    by (simp add: Delete_def state_without_outputs_def plain_destroy_def
        BuildInterpolationContextFromState_def expand_destroy_def and_then_def expand_url_def
        failed_def)
  ultimately show ?thesis by (simp add: state_without_outputs_def)
qed

subsection \<open>The model on the repository's unit tests\<close>

text \<open>
  \<^verbatim>\<open>TestRetryConfig_CalculateDelay\<close>: fixed, linear and exponential backoff, the cap and
  the \<^verbatim>\<open>Retry-After\<close> header, in any world.
\<close>

lemma CalculateDelay_unit_tests:
  "CalculateDelay w \<lparr>Attempts = 0, MinDelayMs = 1000, MaxDelayMs = 5000, Backoff = ''fixed'',
      Jitter = False, RetryOnStatusCodes = [], RespectRetryAfter = False\<rparr> 3 [] = 1000 * 1000000"
  "CalculateDelay w \<lparr>Attempts = 0, MinDelayMs = 1000, MaxDelayMs = 10000, Backoff = ''linear'',
      Jitter = False, RetryOnStatusCodes = [], RespectRetryAfter = False\<rparr> 2 [] = 2000 * 1000000"
  "CalculateDelay w \<lparr>Attempts = 0, MinDelayMs = 1000, MaxDelayMs = 10000, Backoff = ''exponential'',
      Jitter = False, RetryOnStatusCodes = [], RespectRetryAfter = False\<rparr> 3 [] = 4000 * 1000000"
  "CalculateDelay w \<lparr>Attempts = 0, MinDelayMs = 1000, MaxDelayMs = 3000, Backoff = ''exponential'',
      Jitter = False, RetryOnStatusCodes = [], RespectRetryAfter = False\<rparr> 5 [] = 3000 * 1000000"
  "CalculateDelay w \<lparr>Attempts = 0, MinDelayMs = 1000, MaxDelayMs = 5000, Backoff = ''fixed'',
      Jitter = False, RetryOnStatusCodes = [], RespectRetryAfter = True\<rparr> 1 ''5'' = 5 * 1000000000"
  by (simp_all add: CalculateDelay_def pow2_def parseRetryAfter_def TrimSpace_def isSpace_def
      ParseInt_def isDigit_def)

text \<open>\<^verbatim>\<open>TestInterpolateString\<close> and \<^verbatim>\<open>TestTruncateString\<close>.\<close>

lemma InterpolateString_unit_tests:
  "InterpolateString ''https://api.example.com/users/${self.id}''
     \<lparr>ctx_ID = ''user-123'', ctx_Outputs = [], ctx_ResponseBody = [], ctx_StatusCode = 0\<rparr>
   = Inr ''https://api.example.com/users/user-123''"
  "InterpolateString ''${self.id}:${self.outputs.user_id}''
     \<lparr>ctx_ID = ''res-1'', ctx_Outputs = [(''user_id'', ''usr-2'')], ctx_ResponseBody = [],
      ctx_StatusCode = 0\<rparr>
   = Inr ''res-1:usr-2''"
  "InterpolateString ''${self.outputs.missing}''
     \<lparr>ctx_ID = ''res-1'', ctx_Outputs = [], ctx_ResponseBody = [], ctx_StatusCode = 0\<rparr>
   = Inl (OutputKeyNotFound ''missing'')"
  "InterpolateString [] c = Inr []"
  by (simp_all add: InterpolateString_def replaceOutputs.simps matchOutputs_def outputsOpen_def
      outputsTemplate_def isKeyChar_def Let_def ReplaceAll_def selfId_def replace_nonempty.simps)

lemma TruncateString_unit_tests:
  "TruncateString ''short'' 10 = Some ''short''"
  "TruncateString ''this is a very long string'' 10 = Some ''this is a ... [TRUNCATED]''"
  "TruncateString ''exact'' 5 = Some ''exact''"
  by (simp_all add: TruncateString_def TRUNCATED_def)

end
